theory Spec2Isabelle
  imports Complex_Main "HOL-Library.AList" "HOL-Library.Multiset"
begin

section \<open>Values\<close>

text \<open>
  A Python \<open>float\<close>, by the number it stands for. The code only compares floats, so a
  finite float is the rational it equals; rounding of a decimal literal to binary64 and
  overflow of a literal to infinity are not modelled.
\<close>

datatype pyfloat = Finite rat | PosInf | NegInf | NaN

text \<open>
  What \<open>json.loads\<close> returns: \<open>None\<close>, \<open>bool\<close>, \<open>int\<close>, \<open>float\<close>, \<open>str\<close>,
  \<open>list\<close> and \<open>dict\<close>. A dict keeps its keys in insertion order, one entry per key.
  Text is a list of 8-bit characters: the model covers texts whose code points are below 256.
\<close>

datatype json =
    JNull
  | JBool bool
  | JInt int
  | JFloat pyfloat
  | JStr string
  | JArr "json list"
  | JObj "(string \<times> json) list"

text \<open>\<open>type(v).__name__\<close>, as Python's error messages print it.\<close>

fun type_name :: "json \<Rightarrow> string" where
  "type_name JNull = ''NoneType''"
| "type_name (JBool b) = ''bool''"
| "type_name (JInt i) = ''int''"
| "type_name (JFloat f) = ''float''"
| "type_name (JStr s) = ''str''"
| "type_name (JArr vs) = ''list''"
| "type_name (JObj d) = ''dict''"

text \<open>\<open>d.get(key, default)\<close> on a dict.\<close>

definition dict_get :: "(string \<times> json) list \<Rightarrow> string \<Rightarrow> json \<Rightarrow> json" where
  "dict_get d k dflt = (case map_of d k of None \<Rightarrow> dflt | Some v \<Rightarrow> v)"

section \<open>Text helpers\<close>

definition dquote :: char where "dquote = CHR 0x22"
definition backslash :: char where "backslash = CHR 0x5C"
definition newline :: char where "newline = CHR 0x0A"

text \<open>A text between single quotes, as Python's messages print a name.\<close>

definition quoted :: "string \<Rightarrow> string" where
  "quoted s = CHR 0x27 # s @ [CHR 0x27]"

text \<open>\<open>str.isspace\<close> on the code points below 256, and \<open>str.strip()\<close>.\<close>

definition isspace :: "char \<Rightarrow> bool" where
  "isspace c = (let n = (of_char c :: nat) in
     (9 \<le> n \<and> n \<le> 13) \<or> (28 \<le> n \<and> n \<le> 32) \<or> n = 133 \<or> n = 160)"

definition strip :: "string \<Rightarrow> string" where
  "strip s = rev (dropWhile isspace (rev (dropWhile isspace s)))"

definition is_digit :: "char \<Rightarrow> bool" where
  "is_digit c = (let n = (of_char c :: nat) in 48 \<le> n \<and> n \<le> 57)"

definition digit_val :: "char \<Rightarrow> nat" where
  "digit_val c = of_char c - 48"

definition nat_of_digits :: "string \<Rightarrow> nat" where
  "nat_of_digits ds = foldl (\<lambda>a c. 10 * a + digit_val c) 0 ds"

text \<open>\<open>str(n)\<close> for a natural number.\<close>

fun show_nat :: "nat \<Rightarrow> string" where
  "show_nat n =
     (if n < 10 then [char_of (48 + n)]
      else show_nat (n div 10) @ [char_of (48 + n mod 10)])"

declare show_nat.simps [simp del]

section \<open>The JSON decoder\<close>

text \<open>
  \<open>json.loads\<close> of the standard library (the default decoder: strict strings, \<open>NaN\<close>,
  \<open>Infinity\<close> and \<open>-Infinity\<close> accepted), with the messages and positions of CPython's
  decoder. An error inside the decoder is a message and the number of characters that
  were still unread at the place of the error; \<open>json_loads\<close> turns it into the text of
  \<open>str(e)\<close>. The interpreter's recursion limit on nesting depth, the limit on the digits
  of an integer and escapes \<open>\<bsol>uXXXX\<close> of code points above 255 are outside the model.
\<close>

type_synonym decode_error = "string \<times> nat"

definition is_ws :: "char \<Rightarrow> bool" where
  "is_ws c = (c = CHR '' '' \<or> c = CHR 0x09 \<or> c = CHR 0x0A \<or> c = CHR 0x0D)"

definition skip_ws :: "string \<Rightarrow> string" where
  "skip_ws cs = dropWhile is_ws cs"

definition hex_val :: "char \<Rightarrow> nat option" where
  "hex_val c = (let n = (of_char c :: nat) in
     if 48 \<le> n \<and> n \<le> 57 then Some (n - 48)
     else if 65 \<le> n \<and> n \<le> 70 then Some (n - 55)
     else if 97 \<le> n \<and> n \<le> 102 then Some (n - 87)
     else None)"

definition decode_uXXXX :: "string \<Rightarrow> nat option" where
  "decode_uXXXX hs =
     (case map hex_val hs of
        [Some a, Some b, Some c, Some d] \<Rightarrow> Some (((a * 16 + b) * 16 + c) * 16 + d)
      | _ \<Rightarrow> None)"

definition escape_char :: "char \<Rightarrow> char option" where
  "escape_char e =
     (if e = dquote then Some dquote
      else if e = backslash then Some backslash
      else if e = CHR ''/'' then Some (CHR ''/'')
      else if e = CHR ''b'' then Some (CHR 0x08)
      else if e = CHR ''f'' then Some (CHR 0x0C)
      else if e = CHR ''n'' then Some (CHR 0x0A)
      else if e = CHR ''r'' then Some (CHR 0x0D)
      else if e = CHR ''t'' then Some (CHR 0x09)
      else None)"

definition add_char :: "char \<Rightarrow> decode_error + string \<times> string \<Rightarrow> decode_error + string \<times> string" where
  "add_char c r = (case r of Inl e \<Rightarrow> Inl e | Inr (s, rest) \<Rightarrow> Inr (c # s, rest))"

text \<open>
  \<open>scanstring\<close>: the text after an opening quote, up to the closing quote. \<open>b\<close> is the
  number of characters unread at the opening quote. CPython reads an escape \<open>\<bsol>uXXXX\<close> only
  when a further character follows its four digits.
\<close>

fun scanstring :: "nat \<Rightarrow> string \<Rightarrow> decode_error + string \<times> string" where
  "scanstring b [] = Inl (''Unterminated string starting at'', b)"
| "scanstring b [c] =
     (if c = dquote then Inr ([], [])
      else if c = backslash then Inl (''Unterminated string starting at'', b)
      else if (of_char c :: nat) < 32 then Inl (''Invalid control character at'', 1)
      else add_char c (scanstring b []))"
| "scanstring b (c # e # es) =
     (if c = dquote then Inr ([], e # es)
      else if c = backslash then
        (if e = CHR ''u'' then
           (if length es < 5
            then Inl (''Invalid '' @ [backslash] @ ''uXXXX escape'', Suc (length es))
            else
              (case decode_uXXXX (take 4 es) of
                 None \<Rightarrow> Inl (''Invalid '' @ [backslash] @ ''uXXXX escape'', Suc (length es))
               | Some n \<Rightarrow>
                   if n < 256 then add_char (char_of n) (scanstring b (drop 4 es))
                   else Inl (''code point above 255'', Suc (length es))))
         else
           (case escape_char e of
              None \<Rightarrow> Inl (''Invalid '' @ [backslash] @ ''escape'', Suc (Suc (length es)))
            | Some ch \<Rightarrow> add_char ch (scanstring b es)))
      else if (of_char c :: nat) < 32 then
        Inl (''Invalid control character at'', Suc (Suc (length es)))
      else add_char c (scanstring b (e # es)))"

text \<open>
  The number pattern \<open>(-?(?:0|[1-9]\<bsol>d*))(\<bsol>.\<bsol>d+)?([eE][-+]?\<bsol>d+)?\<close>: the integer part, then
  a fraction and an exponent where they match. Without fraction and exponent the value is
  an \<open>int\<close>, else a \<open>float\<close>.
\<close>

definition scan_int_part :: "string \<Rightarrow> (string \<times> string) option" where
  "scan_int_part cs =
     (case cs of
        [] \<Rightarrow> None
      | c # r \<Rightarrow>
          if c = CHR ''0'' then Some ([c], r)
          else if is_digit c then Some (takeWhile is_digit cs, dropWhile is_digit cs)
          else None)"

definition scan_frac :: "string \<Rightarrow> string \<times> string" where
  "scan_frac cs =
     (case cs of
        c # d # r \<Rightarrow>
          if c = CHR ''.'' \<and> is_digit d
          then (takeWhile is_digit (d # r), dropWhile is_digit (d # r))
          else ([], cs)
      | _ \<Rightarrow> ([], cs))"

definition scan_exp :: "string \<Rightarrow> int option \<times> string" where
  "scan_exp cs =
     (case cs of
        [] \<Rightarrow> (None, cs)
      | c # r \<Rightarrow>
          if c = CHR ''e'' \<or> c = CHR ''E'' then
            (let (neg, r1) =
                   (case r of
                      [] \<Rightarrow> (False, r)
                    | s # r' \<Rightarrow>
                        if s = CHR ''-'' then (True, r')
                        else if s = CHR ''+'' then (False, r')
                        else (False, r));
                 ds = takeWhile is_digit r1
             in if ds = [] then (None, cs)
                else (Some (if neg then - int (nat_of_digits ds) else int (nat_of_digits ds)),
                      dropWhile is_digit r1))
          else (None, cs))"

definition pow10 :: "int \<Rightarrow> rat" where
  "pow10 e = (if 0 \<le> e then 10 ^ nat e else 1 / 10 ^ nat (- e))"

definition match_number :: "string \<Rightarrow> (json \<times> string) option" where
  "match_number cs =
     (let (neg, cs1) =
            (case cs of
               [] \<Rightarrow> (False, cs)
             | c # r \<Rightarrow> if c = CHR ''-'' then (True, r) else (False, cs))
      in case scan_int_part cs1 of
           None \<Rightarrow> None
         | Some (ds, cs2) \<Rightarrow>
             (let (fs, cs3) = scan_frac cs2;
                  (ex, cs4) = scan_exp cs3
              in if fs = [] \<and> ex = None
                 then Some (JInt (if neg then - int (nat_of_digits ds) else int (nat_of_digits ds)), cs4)
                 else
                   (let m = rat_of_nat (nat_of_digits (ds @ fs));
                        e = (case ex of None \<Rightarrow> 0 | Some x \<Rightarrow> x) - int (length fs);
                        v = m * pow10 e
                    in Some (JFloat (Finite (if neg then - v else v)), cs4))))"

definition starts_with :: "string \<Rightarrow> string \<Rightarrow> bool" where
  "starts_with p cs = (take (length p) cs = p)"

text \<open>The values that are neither a string, an object nor an array, in the decoder's order.\<close>

definition scan_atom :: "string \<Rightarrow> (json \<times> string) option" where
  "scan_atom cs =
     (if starts_with ''null'' cs then Some (JNull, drop 4 cs)
      else if starts_with ''true'' cs then Some (JBool True, drop 4 cs)
      else if starts_with ''false'' cs then Some (JBool False, drop 5 cs)
      else case match_number cs of
             Some r \<Rightarrow> Some r
           | None \<Rightarrow>
               if starts_with ''NaN'' cs then Some (JFloat NaN, drop 3 cs)
               else if starts_with ''Infinity'' cs then Some (JFloat PosInf, drop 8 cs)
               else if starts_with ''-Infinity'' cs then Some (JFloat NegInf, drop 9 cs)
               else None)"

text \<open>
  A property name and its colon: white space, a string, white space, \<open>:\<close>, white space.
\<close>

definition scan_key :: "string \<Rightarrow> decode_error + string \<times> string" where
  "scan_key cs =
     (let cs1 = skip_ws cs in
      case cs1 of
        [] \<Rightarrow> Inl (''Expecting property name enclosed in double quotes'', 0)
      | c # r \<Rightarrow>
          if c \<noteq> dquote
          then Inl (''Expecting property name enclosed in double quotes'', length cs1)
          else
            (case scanstring (length cs1) r of
               Inl e \<Rightarrow> Inl e
             | Inr (k, r1) \<Rightarrow>
                 (let r2 = skip_ws r1 in
                  case r2 of
                    [] \<Rightarrow> Inl (''Expecting ':' delimiter'', 0)
                  | d # r3 \<Rightarrow>
                      if d \<noteq> CHR '':'' then Inl (''Expecting ':' delimiter'', length r2)
                      else Inr (k, skip_ws r3))))"

text \<open>
  The decoder proper. Python's decoder is recursive (\<open>scan_once\<close>, \<open>JSONObject\<close>,
  \<open>JSONArray\<close>); here the containers under construction are an explicit stack, the
  innermost first: an array with the values read so far, or an object with the entries
  read so far and the name whose value is being read.
\<close>

datatype frame = ArrF "json list" | ObjF "(string \<times> json) list" string

lemma length_add_char:
  "add_char c r = Inr (s, rest) \<Longrightarrow> \<exists>s'. r = Inr (s', rest)"
  by (auto simp: add_char_def split: sum.splits)

lemma scanstring_shorter:
  "scanstring b cs = Inr (s, rest) \<Longrightarrow> length rest < length cs"
proof (induction b cs arbitrary: s rule: scanstring.induct)
  case (1 b)
  then show ?case by simp
next
  case (2 b c)
  then show ?case
    by (auto simp: add_char_def split: if_splits sum.splits)
next
  case (3 b c e es)
  show ?case
  proof (cases "c = dquote")
    case True
    with 3(4) show ?thesis by simp
  next
    case nq: False
    show ?thesis
    proof (cases "c = backslash")
      case bs: True
      show ?thesis
      proof (cases "e = CHR ''u''")
        case True
        with 3(4) nq bs obtain n where len: "\<not> length es < 5"
          and n: "decode_uXXXX (take 4 es) = Some n" "n < 256"
          and r: "add_char (char_of n) (scanstring b (drop 4 es)) = Inr (s, rest)"
          by (auto split: option.splits if_splits)
        from length_add_char [OF r] obtain s' where "scanstring b (drop 4 es) = Inr (s', rest)"
          by blast
        with 3(1) [OF nq bs True len n(1) n(2)] have "length rest < length (drop 4 es)" by blast
        then show ?thesis by simp
      next
        case False
        with 3(4) nq bs obtain ch where ch: "escape_char e = Some ch"
          and r: "add_char ch (scanstring b es) = Inr (s, rest)"
          by (auto split: option.splits)
        from length_add_char [OF r] obtain s' where "scanstring b es = Inr (s', rest)"
          by blast
        with 3(2) [OF nq bs False ch] have "length rest < length es" by blast
        then show ?thesis by simp
      qed
    next
      case nb: False
      with 3(4) nq have ctl: "\<not> (of_char c :: nat) < 32"
        and r: "add_char c (scanstring b (e # es)) = Inr (s, rest)"
        by (auto split: if_splits)
      from length_add_char [OF r] obtain s' where "scanstring b (e # es) = Inr (s', rest)"
        by blast
      with 3(3) [OF nq nb ctl] have "length rest < length (e # es)" by blast
      then show ?thesis by simp
    qed
  qed
qed

lemma length_skip_ws: "length (skip_ws cs) \<le> length cs"
  by (simp add: skip_ws_def length_dropWhile_le)

lemma scan_key_shorter:
  assumes "scan_key cs = Inr (k, rest)"
  shows "length rest < length cs"
proof -
  from assms obtain r r1 d r3 where cs1: "skip_ws cs = dquote # r"
    and str: "scanstring (length (skip_ws cs)) r = Inr (k, r1)"
    and r2: "skip_ws r1 = d # r3" and rest: "rest = skip_ws r3"
    by (auto simp: scan_key_def Let_def split: list.splits if_splits sum.splits)
  have "length rest \<le> length r3" using rest length_skip_ws by simp
  also have "\<dots> < length (skip_ws r1)" using r2 by simp
  also have "\<dots> \<le> length r1" by (rule length_skip_ws)
  also have "\<dots> < length r" using scanstring_shorter [OF str] .
  also have "\<dots> < length (skip_ws cs)" using cs1 by simp
  also have "\<dots> \<le> length cs" by (rule length_skip_ws)
  finally show ?thesis .
qed

lemma scan_int_part_shorter:
  "scan_int_part cs = Some (ds, rest) \<Longrightarrow> length rest < length cs"
  by (cases cs)
     (auto simp: scan_int_part_def split: if_splits
           intro: le_imp_less_Suc length_dropWhile_le)

lemma scan_frac_shorter: "scan_frac cs = (fs, rest) \<Longrightarrow> length rest \<le> length cs"
proof (cases cs)
  case Nil
  then show "scan_frac cs = (fs, rest) \<Longrightarrow> length rest \<le> length cs"
    by (simp add: scan_frac_def)
next
  case (Cons c r)
  assume a: "scan_frac cs = (fs, rest)"
  show "length rest \<le> length cs"
  proof (cases r)
    case Nil
    with Cons a show ?thesis by (simp add: scan_frac_def)
  next
    case (Cons d r')
    have "length (dropWhile is_digit (d # r')) \<le> length (d # r')"
      by (rule length_dropWhile_le)
    with \<open>cs = c # r\<close> Cons a show ?thesis
      by (auto simp: scan_frac_def split: if_splits)
  qed
qed

lemma scan_exp_shorter: "scan_exp cs = (ex, rest) \<Longrightarrow> length rest \<le> length cs"
proof (cases cs)
  case Nil
  then show "scan_exp cs = (ex, rest) \<Longrightarrow> length rest \<le> length cs"
    by (simp add: scan_exp_def)
next
  case (Cons c r)
  assume a: "scan_exp cs = (ex, rest)"
  have d: "length (dropWhile is_digit xs) \<le> length xs" for xs
    by (rule length_dropWhile_le)
  show "length rest \<le> length cs"
  proof (cases r)
    case Nil
    with Cons a show ?thesis
      by (auto simp: scan_exp_def Let_def split: if_splits)
  next
    case inner: (Cons s r')
    from d [of r] d [of r'] Cons inner a show ?thesis
      by (auto simp: scan_exp_def Let_def split: if_splits)
  qed
qed

lemma match_number_shorter:
  assumes "match_number cs = Some (v, rest)"
  shows "length rest < length cs"
proof -
  obtain neg cs1 where n: "(case cs of [] \<Rightarrow> (False, cs)
       | c # r \<Rightarrow> if c = CHR ''-'' then (True, r) else (False, cs)) = (neg, cs1)"
    by (cases "(case cs of [] \<Rightarrow> (False, cs)
       | c # r \<Rightarrow> if c = CHR ''-'' then (True, r) else (False, cs))") auto
  then have l1: "length cs1 \<le> length cs"
    by (cases cs) (auto split: if_splits)
  from assms n obtain ds cs2 where i: "scan_int_part cs1 = Some (ds, cs2)"
    by (cases "scan_int_part cs1") (auto simp: match_number_def Let_def)
  obtain fs cs3 where f: "scan_frac cs2 = (fs, cs3)" by (cases "scan_frac cs2") auto
  obtain ex cs4 where e: "scan_exp cs3 = (ex, cs4)" by (cases "scan_exp cs3") auto
  from assms n i f e have "rest = cs4"
    by (auto simp: match_number_def Let_def split: if_splits)
  moreover have "length cs4 \<le> length cs3" using scan_exp_shorter [OF e] .
  moreover have "length cs3 \<le> length cs2" using scan_frac_shorter [OF f] .
  moreover have "length cs2 < length cs1" using scan_int_part_shorter [OF i] .
  ultimately show ?thesis using l1 by simp
qed

lemma starts_with_nonempty: "starts_with p cs \<Longrightarrow> p \<noteq> [] \<Longrightarrow> cs \<noteq> []"
  by (auto simp: starts_with_def)

lemma scan_atom_shorter:
  assumes "scan_atom cs = Some (v, rest)"
  shows "length rest < length cs"
proof -
  have dr: "cs \<noteq> [] \<Longrightarrow> 0 < n \<Longrightarrow> length (drop n cs) < length cs" for n
    by (cases cs) auto
  from assms show ?thesis
    by (auto simp: scan_atom_def split: if_splits option.splits
             dest!: match_number_shorter starts_with_nonempty intro!: dr)
qed

lemma skip_ws_Cons_shorter: "skip_ws cs = c # r \<Longrightarrow> length r < length cs"
  using length_skip_ws [of cs] by simp

function parse_value :: "frame list \<Rightarrow> string \<Rightarrow> decode_error + json \<times> string"
  and parse_after :: "json \<Rightarrow> frame list \<Rightarrow> string \<Rightarrow> decode_error + json \<times> string"
where
  "parse_value stk [] = Inl (''Expecting value'', 0)"
| "parse_value stk (c # r) =
     (if c = dquote then
        (case scanstring (Suc (length r)) r of
           Inl e \<Rightarrow> Inl e
         | Inr (s, r1) \<Rightarrow> parse_after (JStr s) stk r1)
      else if c = CHR ''{'' then
        (if starts_with ''}'' (skip_ws r) then parse_after (JObj []) stk (drop 1 (skip_ws r))
         else
           (case scan_key r of
              Inl e \<Rightarrow> Inl e
            | Inr (k, r2) \<Rightarrow> parse_value (ObjF [] k # stk) r2))
      else if c = CHR ''['' then
        (if starts_with '']'' (skip_ws r) then parse_after (JArr []) stk (drop 1 (skip_ws r))
         else parse_value (ArrF [] # stk) (skip_ws r))
      else
        (case scan_atom (c # r) of
           None \<Rightarrow> Inl (''Expecting value'', Suc (length r))
         | Some (v, r1) \<Rightarrow> parse_after v stk r1))"
| "parse_after v [] cs = Inr (v, cs)"
| "parse_after v (ArrF vs # stk) cs =
     (case skip_ws cs of
        [] \<Rightarrow> Inl (''Expecting ',' delimiter'', 0)
      | c # r1 \<Rightarrow>
          if c = CHR '']'' then parse_after (JArr (vs @ [v])) stk r1
          else if c = CHR '','' then parse_value (ArrF (vs @ [v]) # stk) (skip_ws r1)
          else Inl (''Expecting ',' delimiter'', Suc (length r1)))"
| "parse_after v (ObjF d k # stk) cs =
     (case skip_ws cs of
        [] \<Rightarrow> Inl (''Expecting ',' delimiter'', 0)
      | c # r1 \<Rightarrow>
          if c = CHR ''}'' then parse_after (JObj (AList.update k v d)) stk r1
          else if c = CHR '','' then
            (case scan_key r1 of
               Inl e \<Rightarrow> Inl e
             | Inr (k', r2) \<Rightarrow> parse_value (ObjF (AList.update k v d) k' # stk) r2)
          else Inl (''Expecting ',' delimiter'', Suc (length r1)))"
  by pat_completeness auto

termination
proof (relation "measure (\<lambda>x. case x of Inl (stk, cs) \<Rightarrow> length cs | Inr (v, stk, cs) \<Rightarrow> length cs)",
    goal_cases)
  case 1
  show ?case by simp
next
  case (2 stk c r x2 s r1)
  then show ?case using scanstring_shorter [of "Suc (length r)" r s r1] by simp
next
  case (3 stk c r)
  then show ?case using length_skip_ws [of r] by (simp add: le_imp_less_Suc)
next
  case (4 stk c r x2 k r2)
  then show ?case using scan_key_shorter [of r k r2] by simp
next
  case (5 stk c r)
  then show ?case using length_skip_ws [of r] by (simp add: le_imp_less_Suc)
next
  case (6 stk c r)
  then show ?case using length_skip_ws [of r] by (simp add: le_imp_less_Suc)
next
  case (7 stk c r x2 v r1)
  then show ?case using scan_atom_shorter [of "c # r" v r1] by simp
next
  case (8 v vs stk cs c r1)
  then show ?case using skip_ws_Cons_shorter [of cs c r1] by simp
next
  case (9 v vs stk cs c r1)
  then show ?case
    using skip_ws_Cons_shorter [of cs c r1] length_skip_ws [of r1] by simp
next
  case (10 v d k stk cs c r1)
  then show ?case using skip_ws_Cons_shorter [of cs c r1] by simp
next
  case (11 v d k stk cs c r1 x2 k' r2)
  then show ?case
    using skip_ws_Cons_shorter [of cs c r1] scan_key_shorter [of r1 k' r2] by simp
qed

declare parse_value.simps [simp del] parse_after.simps [simp del]

text \<open>\<open>str(e)\<close> of a \<open>JSONDecodeError\<close> with message \<open>msg\<close> at index \<open>pos\<close> of \<open>doc\<close>.\<close>

definition decode_error_str :: "string \<Rightarrow> string \<Rightarrow> nat \<Rightarrow> string" where
  "decode_error_str msg doc pos =
     (let seen = take pos doc;
          lineno = length (filter (\<lambda>c. c = newline) seen) + 1;
          colno = length (takeWhile (\<lambda>c. c \<noteq> newline) (rev seen)) + 1
      in msg @ '': line '' @ show_nat lineno @ '' column '' @ show_nat colno
           @ '' (char '' @ show_nat pos @ '')'')"

text \<open>
  \<open>json.loads(s)\<close>: white space, one value, white space, the end. \<open>Inl\<close> is the text of
  the exception raised.
\<close>

definition json_loads :: "string \<Rightarrow> string + json" where
  "json_loads s =
     (case parse_value [] (skip_ws s) of
        Inl (msg, k) \<Rightarrow> Inl (decode_error_str msg s (length s - k))
      | Inr (v, r) \<Rightarrow>
          (let r' = skip_ws r in
           if r' = [] then Inr v
           else Inl (decode_error_str ''Extra data'' s (length s - length r'))))"

section \<open>Numbers and their comparison\<close>

text \<open>Python's \<open><\<close> and \<open>>=\<close> on floats: every comparison with \<open>nan\<close> is false.\<close>

fun fl_lt :: "pyfloat \<Rightarrow> pyfloat \<Rightarrow> bool" where
  "fl_lt (Finite a) (Finite b) = (a < b)"
| "fl_lt (Finite a) PosInf = True"
| "fl_lt NegInf (Finite b) = True"
| "fl_lt NegInf PosInf = True"
| "fl_lt x y = False"

definition fl_ge :: "pyfloat \<Rightarrow> pyfloat \<Rightarrow> bool" where
  "fl_ge x y = (x \<noteq> NaN \<and> y \<noteq> NaN \<and> \<not> fl_lt x y)"

text \<open>
  The number a value is when Python compares it with a float: an \<open>int\<close> and a \<open>float\<close>
  by their value, a \<open>bool\<close> as 0 or 1. Every other type has none: comparing it with a
  float raises \<open>TypeError\<close>.
\<close>

fun num_of :: "json \<Rightarrow> pyfloat option" where
  "num_of (JInt i) = Some (Finite (of_int i))"
| "num_of (JFloat f) = Some f"
| "num_of (JBool b) = Some (Finite (if b then 1 else 0))"
| "num_of v = None"

section \<open>The OpenAI client: \<open>src/llm/openai_client.py\<close>\<close>

text \<open>
  The provider is the call \<open>self.client.chat.completions.create(...)\<close> followed by
  \<open>response.choices[0].message.content\<close>: for a prompt it raises (\<open>Inl\<close>, the text of the
  exception) or gives the content of the reply, which may be \<open>None\<close>.
\<close>

type_synonym provider = "string \<Rightarrow> string + string option"

text \<open>\<open>OpenAIClient.generate_text\<close>, called with a prompt and no system prompt.\<close>

definition generate_text :: "provider \<Rightarrow> string \<Rightarrow> string + string" where
  "generate_text create prompt =
     (case create prompt of
        Inl e \<Rightarrow> Inl (''Error generating text: '' @ e)
      | Inr None \<Rightarrow>
          Inl (''Error generating text: '' @ quoted ''NoneType''
               @ '' object has no attribute '' @ quoted ''strip'')
      | Inr (Some content) \<Rightarrow> Inr (strip content))"

text \<open>
  \<open>OpenAIClient.__init__\<close> without arguments, as \<open>SpeakerMatcher.__init__\<close> calls it: the
  key is the environment variable \<open>OPENAI_API_KEY\<close>.
\<close>

definition OpenAIClient_init :: "string option \<Rightarrow> string + string" where
  "OpenAIClient_init env_key =
     (case env_key of
        None \<Rightarrow> Inl ''OpenAI API key not provided''
      | Some k \<Rightarrow> if k = [] then Inl ''OpenAI API key not provided'' else Inr k)"

section \<open>The matcher: \<open>src/llm/speaker_matcher.py\<close>\<close>

text \<open>
  A speaker is a dict with text values, as the scraper writes them; any key may be
  missing. A scored speaker is the dict \<open>score_speaker\<close> returns: \<open>speaker.get(key)\<close> is
  \<open>None\<close> for a missing key, and \<open>score\<close> and \<open>reasoning\<close> are whatever the reply held.
\<close>

type_synonym speaker = "string \<rightharpoonup> string"

record scored_match =
  name :: "string option"
  title :: "string option"
  organization :: "string option"
  bio :: "string option"
  score :: json
  reasoning :: json

definition get_or :: "speaker \<Rightarrow> string \<Rightarrow> string \<Rightarrow> string" where
  "get_or speaker k dflt = (case speaker k of None \<Rightarrow> dflt | Some v \<Rightarrow> v)"

definition join_lines :: "string list \<Rightarrow> string" where
  "join_lines ls = concat (case ls of [] \<Rightarrow> [] | l # rest \<Rightarrow> l # map (\<lambda>x. newline # x) rest)"

definition prompt_head :: "string list" where
  "prompt_head =
     [''You are a strategic business advisor evaluating conference networking opportunities. Be STRICT and SELECTIVE.'',
      '''',
      ''USER'S BUSINESS/GOALS:'']"

definition prompt_rubric :: "string list" where
  "prompt_rubric =
     [''EVALUATION CRITERIA (ALL must be considered):'',
      '''',
      ''1. DIRECT RELEVANCE (40% weight)'',
      ''   - Does their work DIRECTLY relate to the user's specific product/service?'',
      ''   - Is there clear overlap in technology, mission, or market?'',
      ''   - Would they immediately understand the value proposition?'',
      '''',
      ''2. DECISION-MAKING POWER (30% weight)'',
      ''   - Can they influence purchasing decisions?'',
      ''   - Do they control budget or procurement?'',
      ''   - Are they a key stakeholder in relevant programs?'',
      '''',
      ''3. ACTIONABLE OPPORTUNITY (20% weight)'',
      ''   - Is there a concrete business outcome possible (sale, partnership, introduction)?'',
      ''   - Can this conversation lead to a specific next step?'',
      ''   - Is the timing right for engagement?'',
      '''',
      ''4. MUTUAL BENEFIT (10% weight)'',
      ''   - Is there value for both parties?'',
      ''   - Does the user have something they need?'',
      '''',
      ''SCORING RULES (be conservative):'',
      ''- 9-10: EXCEPTIONAL - Direct decision-maker with immediate need for user's offering. Clear path to business outcome.'',
      ''- 7-8: STRONG - Highly relevant expertise and influence. Likely to lead to concrete opportunity.'',
      ''- 5-6: MODERATE - Some relevance but indirect. May be useful for information/networking only.'',
      ''- 3-4: WEAK - Tangential connection. Low probability of business value.'',
      ''- 0-2: POOR - No meaningful connection. Not worth the conversation time.'',
      '''',
      ''BE STRICT: Only give 9-10 if there's EXCEPTIONAL alignment. Most matches should be 5-7.'',
      '''',
      ''Return ONLY a JSON object:'',
      ''{'',
      ''  '' @ [dquote] @ ''score'' @ [dquote] @ '': <number 0-10>,'',
      ''  '' @ [dquote] @ ''reasoning'' @ [dquote] @ '': '' @ [dquote] @ ''<2-3 sentences explaining the score based on criteria above>'' @ [dquote] @ '''',
      ''}'']"

text \<open>The prompt of \<open>score_speaker\<close>; the bio is cut to its first 800 characters.\<close>

definition build_prompt :: "string \<Rightarrow> speaker \<Rightarrow> string" where
  "build_prompt user_bio speaker =
     join_lines
       (prompt_head @
        [user_bio,
         '''',
         ''SPEAKER:'',
         ''Name: '' @ get_or speaker ''name'' ''N/A'',
         ''Title: '' @ get_or speaker ''title'' ''N/A'',
         ''Organization: '' @ get_or speaker ''organization'' ''N/A'',
         ''Bio: '' @ take 800 (get_or speaker ''bio'' ''N/A''),
         ''''] @
        prompt_rubric)"

text \<open>
  The body of the \<open>try\<close> in \<open>score_speaker\<close>: the call of the provider, \<open>json.loads\<close> of
  the reply, and the dict built from the speaker and the result. \<open>result.get\<close> exists on a
  dict only; on any other value it raises \<open>AttributeError\<close>.
\<close>

definition try_score :: "provider \<Rightarrow> string \<Rightarrow> speaker \<Rightarrow> string + scored_match" where
  "try_score create user_bio speaker =
     (case generate_text create (build_prompt user_bio speaker) of
        Inl e \<Rightarrow> Inl e
      | Inr response \<Rightarrow>
          (case json_loads response of
             Inl e \<Rightarrow> Inl e
           | Inr result \<Rightarrow>
               (case result of
                  JObj d \<Rightarrow>
                    Inr \<lparr>name = speaker ''name'',
                         title = speaker ''title'',
                         organization = speaker ''organization'',
                         bio = speaker ''bio'',
                         score = dict_get d ''score'' (JInt 0),
                         reasoning = dict_get d ''reasoning'' (JStr '''')\<rparr>
                | _ \<Rightarrow>
                    Inl (quoted (type_name result) @ '' object has no attribute ''
                         @ quoted ''get''))))"

text \<open>
  \<open>SpeakerMatcher.score_speaker\<close>: the \<open>try\<close> with its \<open>except Exception\<close>. The first
  component is the list of prompts sent to the provider, the second the dict returned.
\<close>

definition score_speaker :: "provider \<Rightarrow> string \<Rightarrow> speaker \<Rightarrow> string list \<times> scored_match" where
  "score_speaker create user_bio speaker =
     ([build_prompt user_bio speaker],
      case try_score create user_bio speaker of
        Inr m \<Rightarrow> m
      | Inl e \<Rightarrow>
          \<lparr>name = speaker ''name'',
           title = speaker ''title'',
           organization = speaker ''organization'',
           bio = speaker ''bio'',
           score = JInt 0,
           reasoning = JStr (''Error: '' @ e)\<rparr>)"

text \<open>
  Lines 128 and 129 of \<open>recommend_speakers\<close>: one \<open>score_speaker\<close> task per speaker, and
  \<open>asyncio.gather\<close>, which returns the results in the order of the tasks. Task \<open>i\<close> meets
  the provider \<open>create i\<close>, so that equal prompts may get different replies.
\<close>

definition score_all ::
  "(nat \<Rightarrow> provider) \<Rightarrow> string \<Rightarrow> speaker list \<Rightarrow> (string list \<times> scored_match) list" where
  "score_all create user_bio speakers =
     map (\<lambda>(i, speaker). score_speaker (create i) user_bio speaker) (enumerate 0 speakers)"

text \<open>
  The filter \<open>[s for s in scored_speakers if s['score'] >= threshold]\<close>. The comparison
  raises \<open>TypeError\<close> at the first score that is not a number.
\<close>

fun filter_threshold :: "scored_match list \<Rightarrow> pyfloat \<Rightarrow> string + scored_match list" where
  "filter_threshold [] threshold = Inr []"
| "filter_threshold (s # ss) threshold =
     (case num_of (score s) of
        None \<Rightarrow>
          Inl (quoted ''>='' @ '' not supported between instances of ''
               @ quoted (type_name (score s)) @ '' and '' @ quoted ''float'')
      | Some x \<Rightarrow>
          (case filter_threshold ss threshold of
             Inl e \<Rightarrow> Inl e
           | Inr ms \<Rightarrow> Inr (if fl_ge x threshold then s # ms else ms)))"

text \<open>
  The sort key \<open>x['score']\<close>, as a number. After the filter every score is a number other
  than \<open>nan\<close>; the value given to the others is never used.
\<close>

definition score_key :: "scored_match \<Rightarrow> pyfloat" where
  "score_key m = (case num_of (score m) of None \<Rightarrow> NaN | Some x \<Rightarrow> x)"

text \<open>
  \<open>matches.sort(key=..., reverse=True)\<close>: Python's sort is stable, also with
  \<open>reverse=True\<close>, and on keys that are totally ordered the result of a stable sort is
  unique. It is modelled by insertion from the right: an entry moves past the entries
  with a strictly greater key only.
\<close>

fun insert_desc :: "('a \<Rightarrow> pyfloat) \<Rightarrow> 'a \<Rightarrow> 'a list \<Rightarrow> 'a list" where
  "insert_desc key x [] = [x]"
| "insert_desc key x (y # ys) =
     (if fl_lt (key x) (key y) then y # insert_desc key x ys else x # y # ys)"

fun sort_desc :: "('a \<Rightarrow> pyfloat) \<Rightarrow> 'a list \<Rightarrow> 'a list" where
  "sort_desc key [] = []"
| "sort_desc key (x # xs) = insert_desc key x (sort_desc key xs)"

text \<open>Lines 131 to 139 of \<open>recommend_speakers\<close>: filter, then sort.\<close>

definition rank_matches :: "scored_match list \<Rightarrow> pyfloat \<Rightarrow> string + scored_match list" where
  "rank_matches scored_speakers threshold =
     (case filter_threshold scored_speakers threshold of
        Inl e \<Rightarrow> Inl e
      | Inr matches \<Rightarrow> Inr (sort_desc score_key matches))"

text \<open>
  \<open>SpeakerMatcher.recommend_speakers\<close>: the prompts sent, and the matches or the text of
  the exception raised.
\<close>

definition recommend_speakers ::
  "(nat \<Rightarrow> provider) \<Rightarrow> string \<Rightarrow> speaker list \<Rightarrow> pyfloat \<Rightarrow>
   string list \<times> (string + scored_match list)" where
  "recommend_speakers create user_bio speakers threshold =
     (let results = score_all create user_bio speakers
      in (concat (map fst results), rank_matches (map snd results) threshold))"

text \<open>
  \<open>asyncio.gather\<close> with the order in which the tasks complete made explicit: each
  completing task stores its result in its own slot, and the list returned is read from
  the slots in the order of the tasks. \<open>None\<close>: some task never completes, and
  \<open>gather\<close> does not return.
\<close>

definition gather_in :: "nat list \<Rightarrow> (nat \<Rightarrow> 'a) \<Rightarrow> nat \<Rightarrow> 'a list option" where
  "gather_in completion task n =
     those (map (fold (\<lambda>i slots. slots(i \<mapsto> task i)) completion Map.empty) [0..<n])"

definition recommend_speakers_in ::
  "nat list \<Rightarrow> (nat \<Rightarrow> provider) \<Rightarrow> string \<Rightarrow> speaker list \<Rightarrow> pyfloat \<Rightarrow>
   (string + scored_match list) option" where
  "recommend_speakers_in completion create user_bio speakers threshold =
     (case gather_in completion
             (\<lambda>i. snd (score_speaker (create i) user_bio (speakers ! i))) (length speakers) of
        None \<Rightarrow> None
      | Some scored_speakers \<Rightarrow> Some (rank_matches scored_speakers threshold))"

text \<open>The list \<open>scored_speakers\<close> of line 129: the dicts gathered, before the filter.\<close>

definition scored_speakers :: "(nat \<Rightarrow> provider) \<Rightarrow> string \<Rightarrow> speaker list \<Rightarrow> scored_match list" where
  "scored_speakers create user_bio speakers = map snd (score_all create user_bio speakers)"

section \<open>The backend: \<open>backend.py\<close>\<close>

record match_request =
  user_bio :: string
  threshold :: pyfloat

datatype http_exception = HTTPException nat string

text \<open>
  \<open>match_speakers\<close>. \<open>speakers_data\<close> is the global the handler reads: the catalog loaded
  at startup, or the empty list when loading failed. \<open>response\<close> is the constructor
  \<open>MatchResponse(matches=..., total_speakers=..., matches_found=...)\<close>, whose validation
  is pydantic's: it raises or gives the response. The result is the list of prompts sent
  to the provider, and the exception raised or the response.
\<close>

definition match_speakers ::
  "string option \<Rightarrow> (scored_match list \<Rightarrow> nat \<Rightarrow> nat \<Rightarrow> string + 'r) \<Rightarrow> speaker list \<Rightarrow>
   (nat \<Rightarrow> provider) \<Rightarrow> match_request \<Rightarrow> string list \<times> (http_exception + 'r)" where
  "match_speakers env_key response speakers_data create request =
     (if speakers_data = [] then ([], Inl (HTTPException 500 ''Speaker data not loaded''))
      else if user_bio request = [] \<or> length (strip (user_bio request)) < 10
      then ([], Inl (HTTPException 400 ''User bio must be at least 10 characters''))
      else
        (case OpenAIClient_init env_key of
           Inl e \<Rightarrow> ([], Inl (HTTPException 500 (''Error matching speakers: '' @ e)))
         | Inr k \<Rightarrow>
             (let (calls, r) =
                    recommend_speakers create (user_bio request) speakers_data (threshold request)
              in case r of
                   Inl e \<Rightarrow> (calls, Inl (HTTPException 500 (''Error matching speakers: '' @ e)))
                 | Inr matches \<Rightarrow>
                     (case response matches (length speakers_data) (length matches) of
                        Inl e \<Rightarrow>
                          (calls, Inl (HTTPException 500 (''Error matching speakers: '' @ e)))
                      | Inr resp \<Rightarrow> (calls, Inr resp)))))"

text \<open>
  The response models of \<open>backend.py\<close>: \<open>SpeakerMatch\<close> with the fields \<open>name\<close>,
  \<open>title\<close>, \<open>organization\<close>, \<open>bio\<close> (all \<open>str\<close>), \<open>score\<close> (\<open>float\<close>) and \<open>reasoning\<close>
  (\<open>str\<close>), and \<open>MatchResponse\<close>. The constructor below accepts a dict whose fields have
  the declared types, a number being an \<open>int\<close>, a \<open>float\<close> or a \<open>bool\<close>; the further
  coercions of pydantic, the rounding of an \<open>int\<close> to a float (and the rejection of one
  too large for a float) and the text of its error report are not modelled.
  \<open>match_speakers\<close> takes the constructor as its argument \<open>response\<close>, and the theorems
  about it hold for every constructor; \<open>MatchResponse\<close> is the one of the examples.
\<close>

datatype speaker_match = SpeakerMatch string string string string pyfloat string

record match_response =
  matches :: "speaker_match list"
  total_speakers :: nat
  matches_found :: nat

definition validate_match :: "scored_match \<Rightarrow> speaker_match option" where
  "validate_match m =
     (case (name m, title m, organization m, bio m, num_of (score m), reasoning m) of
        (Some n, Some t, Some org, Some b, Some x, JStr r) \<Rightarrow> Some (SpeakerMatch n t org b x r)
      | _ \<Rightarrow> None)"

definition MatchResponse :: "scored_match list \<Rightarrow> nat \<Rightarrow> nat \<Rightarrow> string + match_response" where
  "MatchResponse ms n_total n_found =
     (if list_all (\<lambda>m. validate_match m \<noteq> None) ms
      then Inr \<lparr>matches = List.map_filter validate_match ms, total_speakers = n_total,
                matches_found = n_found\<rparr>
      else Inl ''validation error for MatchResponse'')"

section \<open>The Anthropic client: \<open>src/llm/anthropic_client.py\<close>\<close>

text \<open>
  \<open>sep in s\<close> and \<open>s.split(sep)\<close> for a separator that is not empty (for the empty one
  Python raises \<open>ValueError\<close>; the code never passes it). \<open>py_split_aux\<close> reads the text
  once: \<open>n\<close> characters of a separator just found are still to be skipped, \<open>cur\<close> is the
  piece under construction, reversed.
\<close>

fun contains :: "string \<Rightarrow> string \<Rightarrow> bool" where
  "contains sep [] = (sep = [])"
| "contains sep (c # cs) = (starts_with sep (c # cs) \<or> contains sep cs)"

fun py_split_aux :: "string \<Rightarrow> nat \<Rightarrow> string \<Rightarrow> string \<Rightarrow> string list" where
  "py_split_aux sep n cur [] = [rev cur]"
| "py_split_aux sep n cur (c # cs) =
     (if 0 < n then py_split_aux sep (n - 1) cur cs
      else if starts_with sep (c # cs) then rev cur # py_split_aux sep (length sep - 1) [] cs
      else py_split_aux sep 0 (c # cur) cs)"

definition py_split :: "string \<Rightarrow> string \<Rightarrow> string list" where
  "py_split sep s = py_split_aux sep 0 [] s"

definition fence :: string where "fence = ''```''"

definition json_fence :: string where "json_fence = ''```json''"

text \<open>
  \<open>result.split(opening)[1].split("```")[0].strip()\<close>: the text between the first
  \<open>opening\<close> and the next fence. An index out of range raises \<open>IndexError\<close>.
\<close>

definition fenced_interior :: "string \<Rightarrow> string \<Rightarrow> string + string" where
  "fenced_interior opening result =
     (case py_split opening result of
        a # b # rest \<Rightarrow>
          (case py_split fence b of
             p # ps \<Rightarrow> Inr (strip p)
           | [] \<Rightarrow> Inl ''list index out of range'')
      | _ \<Rightarrow> Inl ''list index out of range'')"

text \<open>
  Lines 83 to 94 of \<open>AnthropicClient.extract_structured_data\<close>, from the text of the reply
  on: the interior of a fenced block tagged \<open>json\<close>, else the interior of any fenced
  block, else the text as it is; then \<open>json.loads\<close>. Every exception is raised again
  with a prefix.
\<close>

definition extract_structured_json :: "string \<Rightarrow> string + json" where
  "extract_structured_json result =
     (case (if contains json_fence result then fenced_interior json_fence result
            else if contains fence result then fenced_interior fence result
            else Inr result) of
        Inl e \<Rightarrow> Inl (''Error extracting structured data: '' @ e)
      | Inr text \<Rightarrow>
          (case json_loads text of
             Inl e \<Rightarrow> Inl (''Error extracting structured data: '' @ e)
           | Inr v \<Rightarrow> Inr v))"

section \<open>The scenario of the specification\<close>

text \<open>
  The catalog \<open>[A, B, C]\<close> of the specification's examples: the provider answers with score
  9 for A, fails for B and answers with score 7 for C.
\<close>

definition reply :: "string \<Rightarrow> string \<Rightarrow> string" where
  "reply sc why =
     ''{'' @ [dquote] @ ''score'' @ [dquote] @ '': '' @ sc @ '', '' @ [dquote] @ ''reasoning''
       @ [dquote] @ '': '' @ [dquote] @ why @ [dquote] @ ''}''"

definition demo_catalog :: "speaker list" where
  "demo_catalog =
     [[''name'' \<mapsto> ''A'', ''title'' \<mapsto> ''Director'', ''organization'' \<mapsto> ''Org A'',
       ''bio'' \<mapsto> ''Buys radar''],
      [''name'' \<mapsto> ''B'', ''title'' \<mapsto> ''Analyst'', ''organization'' \<mapsto> ''Org B'',
       ''bio'' \<mapsto> ''Writes reports''],
      [''name'' \<mapsto> ''C'', ''title'' \<mapsto> ''Engineer'', ''organization'' \<mapsto> ''Org C'',
       ''bio'' \<mapsto> ''Tests sensors'']]"

definition demo_create :: "nat \<Rightarrow> provider" where
  "demo_create i prompt =
     (if i = 0 then Inr (Some (reply ''9'' ''direct fit''))
      else if i = 1 then Inl ''Connection error.''
      else Inr (Some (reply ''7'' ''strong fit'')))"

definition demo_query :: string where
  "demo_query = ''We sell counter-drone radar''"

definition scored_A :: scored_match where
  "scored_A = \<lparr>name = Some ''A'', title = Some ''Director'', organization = Some ''Org A'',
     bio = Some ''Buys radar'', score = JInt 9, reasoning = JStr ''direct fit''\<rparr>"

definition scored_B :: scored_match where
  "scored_B = \<lparr>name = Some ''B'', title = Some ''Analyst'', organization = Some ''Org B'',
     bio = Some ''Writes reports'', score = JInt 0,
     reasoning = JStr ''Error: Error generating text: Connection error.''\<rparr>"

definition scored_C :: scored_match where
  "scored_C = \<lparr>name = Some ''C'', title = Some ''Engineer'', organization = Some ''Org C'',
     bio = Some ''Tests sensors'', score = JInt 7, reasoning = JStr ''strong fit''\<rparr>"

text \<open>The same provider, except that the call for A fails as well.\<close>

definition demo_create_A_fails :: "nat \<Rightarrow> provider" where
  "demo_create_A_fails i =
     (if i = 0 then (\<lambda>prompt. Inl ''Rate limit reached.'') else demo_create i)"

definition failed_A :: scored_match where
  "failed_A = \<lparr>name = Some ''A'', title = Some ''Director'', organization = Some ''Org A'',
     bio = Some ''Buys radar'', score = JInt 0,
     reasoning = JStr ''Error: Error generating text: Rate limit reached.''\<rparr>"

text \<open>The reply for A inside a fenced block, as a model often writes it.\<close>

definition fenced_reply :: string where
  "fenced_reply = json_fence @ [newline] @ reply ''9'' ''direct fit'' @ [newline] @ fence"

text \<open>The provider that gives the fenced reply, whatever the task.\<close>

definition demo_create_fenced :: "nat \<Rightarrow> provider" where
  "demo_create_fenced i prompt = Inr (Some fenced_reply)"

text \<open>The provider of the scenario, except that the reply for B has a text as its score.\<close>

definition demo_create_text_score :: "nat \<Rightarrow> provider" where
  "demo_create_text_score i =
     (if i = 1 then (\<lambda>prompt. Inr (Some (reply (([dquote] @ ''high'' @ [dquote])) ''senior analyst'')))
      else demo_create i)"

definition text_scored_B :: scored_match where
  "text_scored_B = \<lparr>name = Some ''B'', title = Some ''Analyst'', organization = Some ''Org B'',
     bio = Some ''Writes reports'', score = JStr ''high'', reasoning = JStr ''senior analyst''\<rparr>"

definition demo_request :: "pyfloat \<Rightarrow> match_request" where
  "demo_request t = \<lparr>user_bio = demo_query, threshold = t\<rparr>"

section \<open>Properties of the comparison, the filter and the sort\<close>

lemma fl_lt_irrefl: "\<not> fl_lt x x"
  by (cases x) auto

lemma fl_lt_asym: "fl_lt x y \<Longrightarrow> \<not> fl_lt y x"
  by (cases x; cases y) auto

lemma fl_not_lt_trans:
  "y \<noteq> NaN \<Longrightarrow> \<not> fl_lt x y \<Longrightarrow> \<not> fl_lt y z \<Longrightarrow> \<not> fl_lt x z"
  by (cases x; cases y; cases z) auto

lemma fl_ge_not_NaN: "fl_ge x t \<Longrightarrow> x \<noteq> NaN"
  by (simp add: fl_ge_def)

lemma fl_ge_trans: "fl_ge x y \<Longrightarrow> fl_ge y z \<Longrightarrow> fl_ge x z"
  unfolding fl_ge_def using fl_not_lt_trans by blast

lemma fl_lt_imp_ge: "fl_lt x y \<Longrightarrow> fl_ge y x"
  by (cases x; cases y) (auto simp: fl_ge_def)

lemma fl_lt_ge_trans: "fl_lt t2 t1 \<Longrightarrow> fl_ge x t1 \<Longrightarrow> fl_ge x t2"
  by (cases x; cases t1; cases t2) (auto simp: fl_ge_def)

lemma set_insert_desc: "set (insert_desc key x ys) = insert x (set ys)"
  by (induction ys) auto

lemma mset_insert_desc: "mset (insert_desc key x ys) = add_mset x (mset ys)"
  by (induction ys) auto

lemma mset_sort_desc: "mset (sort_desc key xs) = mset xs"
  by (induction xs) (auto simp: mset_insert_desc)

lemma set_sort_desc: "set (sort_desc key xs) = set xs"
  using mset_sort_desc [of key xs] by (metis set_mset_mset)

lemma sorted_insert_desc:
  assumes "sorted_wrt (\<lambda>a b. fl_ge (key a) (key b)) ys" "key x \<noteq> NaN" "\<forall>y\<in>set ys. key y \<noteq> NaN"
  shows "sorted_wrt (\<lambda>a b. fl_ge (key a) (key b)) (insert_desc key x ys)"
  using assms
proof (induction ys)
  case Nil
  then show ?case by simp
next
  case (Cons y ys)
  show ?case
  proof (cases "fl_lt (key x) (key y)")
    case True
    then have "fl_ge (key y) (key x)" by (rule fl_lt_imp_ge)
    with Cons True show ?thesis by (auto simp: set_insert_desc)
  next
    case False
    with Cons.prems have xy: "fl_ge (key x) (key y)" by (simp add: fl_ge_def)
    have "fl_ge (key x) (key z)" if "z \<in> set ys" for z
      using Cons.prems(1) that xy fl_ge_trans by auto
    with Cons.prems xy False show ?thesis by auto
  qed
qed

lemma sorted_sort_desc:
  "\<forall>x\<in>set xs. key x \<noteq> NaN \<Longrightarrow> sorted_wrt (\<lambda>a b. fl_ge (key a) (key b)) (sort_desc key xs)"
  by (induction xs) (auto simp: sorted_insert_desc set_sort_desc)

lemma filter_insert_desc_eq:
  "filter (\<lambda>y. key y = k) (insert_desc key x ys) =
     (if key x = k then x # filter (\<lambda>y. key y = k) ys else filter (\<lambda>y. key y = k) ys)"
  by (induction ys) (auto simp: fl_lt_irrefl)

lemma sort_desc_stable:
  "filter (\<lambda>y. key y = k) (sort_desc key xs) = filter (\<lambda>y. key y = k) xs"
  by (induction xs) (auto simp: filter_insert_desc_eq)

lemma filter_threshold_numeric:
  "\<forall>s\<in>set ss. num_of (score s) \<noteq> None \<Longrightarrow>
     filter_threshold ss t = Inr (filter (\<lambda>s. fl_ge (score_key s) t) ss)"
  by (induction ss) (auto simp: score_key_def)

lemma filter_threshold_Inr_numeric:
  "filter_threshold ss t = Inr ms \<Longrightarrow> \<forall>s\<in>set ss. num_of (score s) \<noteq> None"
  by (induction ss arbitrary: ms) (auto split: option.splits sum.splits)

lemma filter_threshold_Inr_iff:
  "filter_threshold ss t = Inr ms \<longleftrightarrow>
     (\<forall>s\<in>set ss. num_of (score s) \<noteq> None) \<and> ms = filter (\<lambda>s. fl_ge (score_key s) t) ss"
  using filter_threshold_numeric [of ss t] filter_threshold_Inr_numeric [of ss t ms]
  by auto

lemma filter_threshold_Inl_iff:
  "(\<exists>e. filter_threshold ss t = Inl e) \<longleftrightarrow> (\<exists>s\<in>set ss. num_of (score s) = None)"
  using filter_threshold_Inr_iff [of ss t] by (cases "filter_threshold ss t") auto

lemma rank_matches_Inr:
  "rank_matches scored thr = Inr ms \<longleftrightarrow>
     (\<forall>s\<in>set scored. num_of (score s) \<noteq> None) \<and>
     ms = sort_desc score_key (filter (\<lambda>s. fl_ge (score_key s) thr) scored)"
proof (cases "filter_threshold scored thr")
  case (Inl e)
  then have "\<exists>s\<in>set scored. num_of (score s) = None"
    using filter_threshold_Inl_iff [of scored thr] by blast
  with Inl show ?thesis by (auto simp: rank_matches_def)
next
  case (Inr b)
  then have "(\<forall>s\<in>set scored. num_of (score s) \<noteq> None) \<and>
      b = filter (\<lambda>s. fl_ge (score_key s) thr) scored"
    by (simp add: filter_threshold_Inr_iff)
  with Inr show ?thesis by (auto simp: rank_matches_def)
qed

lemma rank_matches_subset: "rank_matches scored thr = Inr ms \<Longrightarrow> set ms \<subseteq> set scored"
  by (auto simp: rank_matches_Inr set_sort_desc)

lemma insert_desc_split: "\<exists>ps qs. S = ps @ qs \<and> insert_desc key m S = ps @ m # qs"
proof (induction S)
  case Nil
  then show ?case by simp
next
  case (Cons y S)
  then obtain ps qs where pq: "S = ps @ qs" "insert_desc key m S = ps @ m # qs" by blast
  show ?case
  proof (cases "fl_lt (key m) (key y)")
    case True
    with pq have "y # S = (y # ps) @ qs \<and> insert_desc key m (y # S) = (y # ps) @ m # qs"
      by simp
    then show ?thesis by blast
  next
    case False
    then have "y # S = [] @ (y # S) \<and> insert_desc key m (y # S) = [] @ m # (y # S)"
      by simp
    then show ?thesis by blast
  qed
qed

lemma insert_desc_head:
  assumes "\<not> fl_lt (key x) (key m)" and "\<forall>z\<in>set q. fl_ge (key m) (key z)"
  shows "insert_desc key x q = x # q"
proof (cases q)
  case Nil
  then show ?thesis by simp
next
  case (Cons z q')
  with assms(2) have "fl_ge (key m) (key z)" by simp
  then have "key m \<noteq> NaN" "\<not> fl_lt (key m) (key z)" by (simp_all add: fl_ge_def)
  with assms(1) have "\<not> fl_lt (key x) (key z)"
    using fl_not_lt_trans [of "key m" "key x" "key z"] by blast
  with Cons show ?thesis by simp
qed

lemma insert_desc_both:
  assumes "sorted_wrt (\<lambda>a b. fl_ge (key a) (key b)) (p @ m # q)"
  shows "\<exists>p' q'. insert_desc key x (p @ q) = p' @ q' \<and>
                 insert_desc key x (p @ m # q) = p' @ m # q'"
  using assms
proof (induction p)
  case Nil
  show ?case
  proof (cases "fl_lt (key x) (key m)")
    case True
    then have "insert_desc key x ([] @ q) = [] @ insert_desc key x q \<and>
        insert_desc key x ([] @ m # q) = [] @ m # insert_desc key x q"
      by simp
    then show ?thesis by blast
  next
    case False
    from Nil have "\<forall>z\<in>set q. fl_ge (key m) (key z)" by simp
    with False have "insert_desc key x q = x # q" by (rule insert_desc_head)
    with False have "insert_desc key x ([] @ q) = [x] @ q \<and>
        insert_desc key x ([] @ m # q) = [x] @ m # q"
      by simp
    then show ?thesis by blast
  qed
next
  case (Cons a p)
  then have "sorted_wrt (\<lambda>a b. fl_ge (key a) (key b)) (p @ m # q)" by simp
  with Cons.IH obtain p' q' where pq: "insert_desc key x (p @ q) = p' @ q'"
    "insert_desc key x (p @ m # q) = p' @ m # q'" by blast
  show ?case
  proof (cases "fl_lt (key x) (key a)")
    case True
    with pq have "insert_desc key x ((a # p) @ q) = (a # p') @ q' \<and>
        insert_desc key x ((a # p) @ m # q) = (a # p') @ m # q'"
      by simp
    then show ?thesis by blast
  next
    case False
    then have "insert_desc key x ((a # p) @ q) = (x # a # p) @ q \<and>
        insert_desc key x ((a # p) @ m # q) = (x # a # p) @ m # q"
      by simp
    then show ?thesis by blast
  qed
qed

lemma sort_desc_one_more:
  assumes "\<forall>z\<in>set (xs @ m # ys). key z \<noteq> NaN"
  shows "\<exists>ps qs. sort_desc key (xs @ ys) = ps @ qs \<and>
                 sort_desc key (xs @ m # ys) = ps @ m # qs"
  using assms
proof (induction xs)
  case Nil
  from insert_desc_split [of "sort_desc key ys" key m] show ?case by simp
next
  case (Cons x xs)
  then obtain ps qs where pq: "sort_desc key (xs @ ys) = ps @ qs"
    "sort_desc key (xs @ m # ys) = ps @ m # qs" by auto
  from Cons.prems have "\<forall>z\<in>set (xs @ m # ys). key z \<noteq> NaN" by simp
  then have "sorted_wrt (\<lambda>a b. fl_ge (key a) (key b)) (sort_desc key (xs @ m # ys))"
    by (rule sorted_sort_desc)
  with pq have "sorted_wrt (\<lambda>a b. fl_ge (key a) (key b)) (ps @ m # qs)" by simp
  from insert_desc_both [OF this, of x] pq show ?case by simp
qed

lemma rank_matches_one_more:
  assumes "rank_matches (xs @ m # ys) thr = Inr ms"
  shows "\<exists>ps qs. rank_matches (xs @ ys) thr = Inr (ps @ qs) \<and>
                 (ms = ps @ qs \<or> ms = ps @ m # qs)"
proof -
  let ?P = "\<lambda>s. fl_ge (score_key s) thr"
  from assms have num: "\<forall>s\<in>set (xs @ m # ys). num_of (score s) \<noteq> None"
    and ms: "ms = sort_desc score_key (filter ?P (xs @ m # ys))"
    by (simp_all add: rank_matches_Inr)
  from num have rest: "rank_matches (xs @ ys) thr = Inr (sort_desc score_key (filter ?P (xs @ ys)))"
    by (simp add: rank_matches_Inr)
  show ?thesis
  proof (cases "?P m")
    case True
    have "\<forall>z\<in>set (filter ?P xs @ m # filter ?P ys). score_key z \<noteq> NaN"
      using True by (auto dest: fl_ge_not_NaN)
    from sort_desc_one_more [OF this] obtain ps qs
      where "sort_desc score_key (filter ?P xs @ filter ?P ys) = ps @ qs"
        "sort_desc score_key (filter ?P xs @ m # filter ?P ys) = ps @ m # qs" by blast
    with True ms rest show ?thesis by auto
  next
    case False
    with ms rest have "rank_matches (xs @ ys) thr = Inr ([] @ ms)" by simp
    then show ?thesis by blast
  qed
qed

lemma rank_matches_all_kept:
  assumes "\<forall>m\<in>set scored. num_of (score m) \<noteq> None \<and> fl_ge (score_key m) thr"
  shows "\<exists>ms. rank_matches scored thr = Inr ms \<and> length ms = length scored \<and>
           mset ms = mset scored"
proof -
  from assms have "filter (\<lambda>s. fl_ge (score_key s) thr) scored = scored"
    by (simp add: filter_id_conv)
  with assms have "rank_matches scored thr = Inr (sort_desc score_key scored)"
    by (simp add: rank_matches_Inr)
  moreover have "mset (sort_desc score_key scored) = mset scored"
    by (rule mset_sort_desc)
  moreover from this have "length (sort_desc score_key scored) = length scored"
    by (rule mset_eq_length)
  ultimately show ?thesis by simp
qed

section \<open>Properties of the fan-out\<close>

lemma score_speaker_prompt:
  "fst (score_speaker create query speaker) = [build_prompt query speaker]"
  by (simp add: score_speaker_def)

lemma score_speaker_fields:
  "name (snd (score_speaker create query speaker)) = speaker ''name'' \<and>
   title (snd (score_speaker create query speaker)) = speaker ''title'' \<and>
   organization (snd (score_speaker create query speaker)) = speaker ''organization'' \<and>
   bio (snd (score_speaker create query speaker)) = speaker ''bio''"
  by (auto simp: score_speaker_def try_score_def split: sum.splits json.splits)

lemma score_speaker_provider_fails:
  "create (build_prompt query speaker) = Inl e \<Longrightarrow>
     score (snd (score_speaker create query speaker)) = JInt 0"
  by (simp add: score_speaker_def try_score_def generate_text_def)

lemma score_all_nth:
  "i < length speakers \<Longrightarrow>
     score_all create query speakers ! i = score_speaker (create i) query (speakers ! i)"
  by (simp add: score_all_def nth_enumerate_eq)

lemma length_score_all: "length (score_all create query speakers) = length speakers"
  by (simp add: score_all_def)

lemma concat_map_singleton: "concat (map (\<lambda>x. [f x]) xs) = map f xs"
  by (induction xs) auto

lemma snd_recommend_speakers:
  "snd (recommend_speakers create query speakers thr) =
     rank_matches (map snd (score_all create query speakers)) thr"
  by (simp add: recommend_speakers_def Let_def)

lemma fst_recommend_speakers:
  "fst (recommend_speakers create query speakers thr) = map (build_prompt query) speakers"
proof -
  have "map fst (score_all create query speakers) = map (\<lambda>sp. [build_prompt query sp]) speakers"
    by (rule nth_equalityI) (simp_all add: length_score_all score_all_nth score_speaker_def)
  then show ?thesis
    by (simp add: recommend_speakers_def Let_def concat_map_singleton)
qed

lemma scored_speakers_nth:
  "i < length speakers \<Longrightarrow>
     scored_speakers create query speakers ! i =
       snd (score_speaker (create i) query (speakers ! i))"
  by (simp add: scored_speakers_def length_score_all score_all_nth)

lemma length_scored_speakers: "length (scored_speakers create query speakers) = length speakers"
  by (simp add: scored_speakers_def length_score_all)

lemma scored_speakers_upt:
  "scored_speakers create query speakers =
     map (\<lambda>i. snd (score_speaker (create i) query (speakers ! i))) [0..<length speakers]"
  by (rule nth_equalityI) (simp_all add: scored_speakers_def length_score_all score_all_nth)

lemma those_map_Some: "those (map Some xs) = Some xs"
  by (induction xs) auto

lemma fold_slots:
  "fold (\<lambda>i slots. slots(i \<mapsto> task i)) completion m j =
     (if j \<in> set completion then Some (task j) else m j)"
  by (induction completion arbitrary: m) auto

lemma gather_in_complete:
  assumes "{0..<n} \<subseteq> set completion"
  shows "gather_in completion task n = Some (map task [0..<n])"
proof -
  have "fold (\<lambda>i slots. slots(i \<mapsto> task i)) completion Map.empty j = Some (task j)"
    if "j \<in> set [0..<n]" for j
    using assms that by (auto simp: fold_slots)
  then have "map (fold (\<lambda>i slots. slots(i \<mapsto> task i)) completion Map.empty) [0..<n] =
      map (\<lambda>j. Some (task j)) [0..<n]"
    by (rule map_cong [OF refl])
  also have "\<dots> = map Some (map task [0..<n])" by simp
  finally have e: "map (fold (\<lambda>i slots. slots(i \<mapsto> task i)) completion Map.empty) [0..<n] =
      map Some (map task [0..<n])" .
  show ?thesis unfolding gather_in_def e by (rule those_map_Some)
qed

lemma recommend_speakers_in_complete:
  assumes "mset completion = mset [0..<length speakers]"
  shows "recommend_speakers_in completion create query speakers thr =
           Some (snd (recommend_speakers create query speakers thr))"
proof -
  from assms have "set completion = {0..<length speakers}"
    by (metis mset_eq_setD set_upt)
  then have "gather_in completion
      (\<lambda>i. snd (score_speaker (create i) query (speakers ! i))) (length speakers) =
      Some (scored_speakers create query speakers)"
    by (simp add: gather_in_complete scored_speakers_upt)
  then show ?thesis
    by (simp add: recommend_speakers_in_def snd_recommend_speakers scored_speakers_def)
qed

section \<open>Properties of the backend\<close>

lemma match_speakers_scoring:
  assumes "speakers_data \<noteq> []" and "user_bio request \<noteq> []"
    and "\<not> length (strip (user_bio request)) < 10"
    and "OpenAIClient_init env_key = Inr k"
  shows "match_speakers env_key response speakers_data create request =
     (map (build_prompt (user_bio request)) speakers_data,
      case rank_matches (scored_speakers create (user_bio request) speakers_data)
             (threshold request) of
        Inl e \<Rightarrow> Inl (HTTPException 500 (''Error matching speakers: '' @ e))
      | Inr ms \<Rightarrow>
          (case response ms (length speakers_data) (length ms) of
             Inl e \<Rightarrow> Inl (HTTPException 500 (''Error matching speakers: '' @ e))
           | Inr resp \<Rightarrow> Inr resp))"
  using assms
  by (simp add: match_speakers_def split_def Let_def fst_recommend_speakers
      snd_recommend_speakers scored_speakers_def split: sum.splits)

lemma match_speakers_empty_catalog:
  "match_speakers env_key response [] create request =
     ([], Inl (HTTPException 500 ''Speaker data not loaded''))"
  by (simp add: match_speakers_def)

section \<open>The scenario, evaluated\<close>

lemma demo_scored:
  "map snd (score_all demo_create demo_query demo_catalog) = [scored_A, scored_B, scored_C]"
  by code_simp

lemma demo_rank_6: "rank_matches [scored_A, scored_B, scored_C] (Finite 6) = Inr [scored_A, scored_C]"
  by code_simp

lemma demo_rank_0:
  "rank_matches [scored_A, scored_B, scored_C] (Finite 0) = Inr [scored_A, scored_C, scored_B]"
  by code_simp

lemma demo_scored_A_fails:
  "scored_speakers demo_create_A_fails demo_query demo_catalog = [failed_A, scored_B, scored_C]"
  by code_simp

lemma demo_rank_A_fails:
  "rank_matches [failed_A, scored_B, scored_C] (Finite 0) = Inr [scored_C, failed_A, scored_B]"
  by code_simp

lemma demo_request_simps:
  "user_bio (demo_request t) = demo_query" "threshold (demo_request t) = t"
  by (simp_all add: demo_request_def)

lemma demo_query_ok: "demo_query \<noteq> []" "\<not> length (strip demo_query) < 10"
  by code_simp+

lemma demo_key: "OpenAIClient_init (Some ''sk-test'') = Inr ''sk-test''"
  by (simp add: OpenAIClient_init_def)

lemma demo_catalog_nonempty: "demo_catalog \<noteq> [] \<and> length demo_catalog = 3"
  by (simp add: demo_catalog_def)

lemma demo_rank_11: "rank_matches [scored_A, scored_B, scored_C] (Finite 11) = Inr []"
  by code_simp

lemma demo_scored_text:
  "scored_speakers demo_create_text_score demo_query demo_catalog =
     [scored_A, text_scored_B, scored_C]"
  by code_simp

lemma demo_rank_text:
  "rank_matches [scored_A, text_scored_B, scored_C] (Finite 6) =
     Inl (quoted ''>='' @ '' not supported between instances of '' @ quoted ''str''
          @ '' and '' @ quoted ''float'')"
  by code_simp

lemma fenced_reply_loads:
  "json_loads (strip fenced_reply) = Inl ''Expecting value: line 1 column 1 (char 0)''"
  by code_simp

lemma fenced_reply_extract:
  "extract_structured_json fenced_reply =
     Inr (JObj [(''score'', JInt 9), (''reasoning'', JStr ''direct fit'')])"
  by code_simp

section \<open>Failure containment in \<open>score_speaker\<close>\<close>

text \<open>
  Claim C1. Whatever the query and the speaker: when the call of the provider raises, or
  the reply is not JSON, \<open>score_speaker\<close> still returns a scored speaker, with the
  speaker's fields, score 0 and the reasoning \<open>Error: \<close> followed by the text of the
  exception. In the model \<open>score_speaker\<close> has no exceptional result: every exception of
  the \<open>try\<close> body is a value \<open>Inl e\<close> of \<open>try_score\<close>, which the handler turns into
  that dict.
\<close>

theorem score_speaker_contains_failure:
  "(create (build_prompt query speaker) = Inl e \<longrightarrow>
      snd (score_speaker create query speaker) =
        \<lparr>name = speaker ''name'', title = speaker ''title'',
         organization = speaker ''organization'', bio = speaker ''bio'',
         score = JInt 0, reasoning = JStr (''Error: '' @ ''Error generating text: '' @ e)\<rparr>) \<and>
   (create (build_prompt query speaker) = Inr (Some content) \<and>
    json_loads (strip content) = Inl e \<longrightarrow>
      snd (score_speaker create query speaker) =
        \<lparr>name = speaker ''name'', title = speaker ''title'',
         organization = speaker ''organization'', bio = speaker ''bio'',
         score = JInt 0, reasoning = JStr (''Error: '' @ e)\<rparr>)"
  by (simp add: score_speaker_def try_score_def generate_text_def)

theorem score_speaker_contains_failure_witness:
  "snd (score_speaker (\<lambda>p. Inl ''Connection error.'') ''We sell counter-drone radar''
          [''name'' \<mapsto> ''Ann Lee'', ''bio'' \<mapsto> ''Program manager'']) =
     \<lparr>name = Some ''Ann Lee'', title = None, organization = None,
      bio = Some ''Program manager'', score = JInt 0,
      reasoning = JStr ''Error: Error generating text: Connection error.''\<rparr> \<and>
   json_loads (strip ''Sorry, I cannot score this.'') =
     Inl ''Expecting value: line 1 column 1 (char 0)'' \<and>
   snd (score_speaker (\<lambda>p. Inr (Some ''Sorry, I cannot score this.''))
          ''We sell counter-drone radar''
          [''name'' \<mapsto> ''Ann Lee'', ''bio'' \<mapsto> ''Program manager'']) =
     \<lparr>name = Some ''Ann Lee'', title = None, organization = None,
      bio = Some ''Program manager'', score = JInt 0,
      reasoning = JStr ''Error: Expecting value: line 1 column 1 (char 0)''\<rparr>"
proof -
  have parse: "json_loads (strip ''Sorry, I cannot score this.'') =
      Inl ''Expecting value: line 1 column 1 (char 0)''"
    by code_simp
  show ?thesis
    using parse
      score_speaker_contains_failure [of "\<lambda>p. Inl ''Connection error.''"
        "''We sell counter-drone radar''"
        "[''name'' \<mapsto> ''Ann Lee'', ''bio'' \<mapsto> ''Program manager'']" "''Connection error.''"]
      score_speaker_contains_failure [of "\<lambda>p. Inr (Some ''Sorry, I cannot score this.'')"
        "''We sell counter-drone radar''"
        "[''name'' \<mapsto> ''Ann Lee'', ''bio'' \<mapsto> ''Program manager'']"
        "''Expecting value: line 1 column 1 (char 0)''" "''Sorry, I cannot score this.''"]
    by simp
qed

section \<open>Completeness of the batch\<close>

text \<open>
  Claim C2. For a catalog of N speakers, every query and every behaviour of the provider,
  \<open>recommend_speakers\<close> sends one prompt per speaker, in catalog order, and applies the
  filter and the sort to a list \<open>scored_speakers\<close> of exactly N dicts, entry \<open>i\<close> being
  the result of \<open>score_speaker\<close> on speaker \<open>i\<close>: the error dict with score 0 when the
  call of the provider for \<open>i\<close> fails, the dict read from the reply when the reply
  parses to an object. So when every one of these dicts passes the filter, the list
  returned has N entries, the same dicts.
\<close>

theorem recommend_speakers_complete:
  "fst (recommend_speakers create query speakers thr) = map (build_prompt query) speakers \<and>
   snd (recommend_speakers create query speakers thr) =
     rank_matches (scored_speakers create query speakers) thr \<and>
   length (scored_speakers create query speakers) = length speakers \<and>
   (\<forall>i<length speakers.
      scored_speakers create query speakers ! i =
        snd (score_speaker (create i) query (speakers ! i)) \<and>
      (\<forall>e. create i (build_prompt query (speakers ! i)) = Inl e \<longrightarrow>
         scored_speakers create query speakers ! i =
           \<lparr>name = (speakers ! i) ''name'', title = (speakers ! i) ''title'',
            organization = (speakers ! i) ''organization'', bio = (speakers ! i) ''bio'',
            score = JInt 0,
            reasoning = JStr (''Error: '' @ ''Error generating text: '' @ e)\<rparr>) \<and>
      (\<forall>content d. create i (build_prompt query (speakers ! i)) = Inr (Some content) \<and>
         json_loads (strip content) = Inr (JObj d) \<longrightarrow>
         scored_speakers create query speakers ! i =
           \<lparr>name = (speakers ! i) ''name'', title = (speakers ! i) ''title'',
            organization = (speakers ! i) ''organization'', bio = (speakers ! i) ''bio'',
            score = dict_get d ''score'' (JInt 0),
            reasoning = dict_get d ''reasoning'' (JStr '''')\<rparr>)) \<and>
   ((\<forall>m\<in>set (scored_speakers create query speakers).
        num_of (score m) \<noteq> None \<and> fl_ge (score_key m) thr) \<longrightarrow>
      (\<exists>ms. snd (recommend_speakers create query speakers thr) = Inr ms \<and>
            length ms = length speakers \<and>
            mset ms = mset (scored_speakers create query speakers)))"
proof (intro conjI allI impI)
  show "fst (recommend_speakers create query speakers thr) = map (build_prompt query) speakers"
    by (rule fst_recommend_speakers)
  show r: "snd (recommend_speakers create query speakers thr) =
      rank_matches (scored_speakers create query speakers) thr"
    by (simp add: snd_recommend_speakers scored_speakers_def)
  show "length (scored_speakers create query speakers) = length speakers"
    by (rule length_scored_speakers)
  show "scored_speakers create query speakers ! i =
      snd (score_speaker (create i) query (speakers ! i))" if "i < length speakers" for i
    using that by (rule scored_speakers_nth)
  show "scored_speakers create query speakers ! i =
      \<lparr>name = (speakers ! i) ''name'', title = (speakers ! i) ''title'',
       organization = (speakers ! i) ''organization'', bio = (speakers ! i) ''bio'',
       score = JInt 0, reasoning = JStr (''Error: '' @ ''Error generating text: '' @ e)\<rparr>"
    if "i < length speakers" "create i (build_prompt query (speakers ! i)) = Inl e" for i e
    using that
    by (simp add: scored_speakers_nth score_speaker_def try_score_def generate_text_def)
  show "scored_speakers create query speakers ! i =
      \<lparr>name = (speakers ! i) ''name'', title = (speakers ! i) ''title'',
       organization = (speakers ! i) ''organization'', bio = (speakers ! i) ''bio'',
       score = dict_get d ''score'' (JInt 0),
       reasoning = dict_get d ''reasoning'' (JStr '''')\<rparr>"
    if "i < length speakers"
      "create i (build_prompt query (speakers ! i)) = Inr (Some content) \<and>
       json_loads (strip content) = Inr (JObj d)" for i content d
    using that
    by (simp add: scored_speakers_nth score_speaker_def try_score_def generate_text_def)
  show "\<exists>ms. snd (recommend_speakers create query speakers thr) = Inr ms \<and>
      length ms = length speakers \<and> mset ms = mset (scored_speakers create query speakers)"
    if "\<forall>m\<in>set (scored_speakers create query speakers).
        num_of (score m) \<noteq> None \<and> fl_ge (score_key m) thr"
    using rank_matches_all_kept [OF that] r by (simp add: length_scored_speakers)
qed

theorem recommend_speakers_complete_witness:
  "fst (recommend_speakers demo_create demo_query demo_catalog (Finite 0)) =
     map (build_prompt demo_query) demo_catalog \<and>
   length (scored_speakers demo_create demo_query demo_catalog) = 3 \<and>
   scored_speakers demo_create demo_query demo_catalog ! 0 = scored_A \<and>
   scored_speakers demo_create demo_query demo_catalog ! 1 = scored_B \<and>
   snd (recommend_speakers demo_create demo_query demo_catalog (Finite 0)) =
     Inr [scored_A, scored_C, scored_B] \<and>
   length [scored_A, scored_C, scored_B] = length demo_catalog"
proof -
  note T = recommend_speakers_complete [of demo_create demo_query demo_catalog "Finite 0"]
  have len: "length demo_catalog = 3" by (simp add: demo_catalog_def)
  have i0: "0 < length demo_catalog" and i1: "1 < length demo_catalog" by (simp_all add: len)
  have fail: "demo_create 1 (build_prompt demo_query (demo_catalog ! 1)) = Inl ''Connection error.''"
    by (simp add: demo_create_def)
  have ok: "demo_create 0 (build_prompt demo_query (demo_catalog ! 0)) =
      Inr (Some (reply ''9'' ''direct fit'')) \<and>
      json_loads (strip (reply ''9'' ''direct fit'')) =
        Inr (JObj [(''score'', JInt 9), (''reasoning'', JStr ''direct fit'')])"
    by code_simp
  have fields: "\<lparr>name = (demo_catalog ! 1) ''name'', title = (demo_catalog ! 1) ''title'',
       organization = (demo_catalog ! 1) ''organization'', bio = (demo_catalog ! 1) ''bio'',
       score = JInt 0,
       reasoning = JStr (''Error: '' @ ''Error generating text: '' @ ''Connection error.'')\<rparr>
     = scored_B"
    by (simp add: demo_catalog_def scored_B_def)
  have fields0: "\<lparr>name = (demo_catalog ! 0) ''name'', title = (demo_catalog ! 0) ''title'',
       organization = (demo_catalog ! 0) ''organization'', bio = (demo_catalog ! 0) ''bio'',
       score = dict_get [(''score'', JInt 9), (''reasoning'', JStr ''direct fit'')] ''score'' (JInt 0),
       reasoning = dict_get [(''score'', JInt 9), (''reasoning'', JStr ''direct fit'')]
                     ''reasoning'' (JStr '''')\<rparr>
     = scored_A"
    by (simp add: demo_catalog_def scored_A_def dict_get_def)
  from T have p: "fst (recommend_speakers demo_create demo_query demo_catalog (Finite 0)) =
      map (build_prompt demo_query) demo_catalog"
    by blast
  from T len have l: "length (scored_speakers demo_create demo_query demo_catalog) = 3"
    by simp
  from T i1 fail have "scored_speakers demo_create demo_query demo_catalog ! 1 =
      \<lparr>name = (demo_catalog ! 1) ''name'', title = (demo_catalog ! 1) ''title'',
       organization = (demo_catalog ! 1) ''organization'', bio = (demo_catalog ! 1) ''bio'',
       score = JInt 0,
       reasoning = JStr (''Error: '' @ ''Error generating text: '' @ ''Connection error.'')\<rparr>"
    by blast
  with fields have b: "scored_speakers demo_create demo_query demo_catalog ! 1 = scored_B"
    by (simp only:)
  from T i0 ok have "scored_speakers demo_create demo_query demo_catalog ! 0 =
      \<lparr>name = (demo_catalog ! 0) ''name'', title = (demo_catalog ! 0) ''title'',
       organization = (demo_catalog ! 0) ''organization'', bio = (demo_catalog ! 0) ''bio'',
       score = dict_get [(''score'', JInt 9), (''reasoning'', JStr ''direct fit'')] ''score'' (JInt 0),
       reasoning = dict_get [(''score'', JInt 9), (''reasoning'', JStr ''direct fit'')]
                     ''reasoning'' (JStr '''')\<rparr>"
    by blast
  with fields0 have a: "scored_speakers demo_create demo_query demo_catalog ! 0 = scored_A"
    by (simp only:)
  have all: "\<forall>m\<in>set (scored_speakers demo_create demo_query demo_catalog).
      num_of (score m) \<noteq> None \<and> fl_ge (score_key m) (Finite 0)"
    unfolding scored_speakers_def demo_scored by code_simp
  from T all obtain ms
    where m: "snd (recommend_speakers demo_create demo_query demo_catalog (Finite 0)) = Inr ms"
      and "length ms = length demo_catalog"
    by blast
  have "snd (recommend_speakers demo_create demo_query demo_catalog (Finite 0)) =
      Inr [scored_A, scored_C, scored_B]"
    by (simp add: snd_recommend_speakers demo_scored demo_rank_0)
  with m have "ms = [scored_A, scored_C, scored_B]" by simp
  with m \<open>length ms = length demo_catalog\<close>
  have r: "snd (recommend_speakers demo_create demo_query demo_catalog (Finite 0)) =
      Inr [scored_A, scored_C, scored_B]"
    and n: "length [scored_A, scored_C, scored_B] = length demo_catalog"
    by (simp_all only:)
  from p l a b r n show ?thesis by (intro conjI)
qed

section \<open>Filter and rank\<close>

text \<open>
  Claim C3. When every score is a number, \<open>recommend_speakers\<close> returns a list that holds
  exactly the scored speakers whose score is greater than or equal to the threshold (as
  many times as they occur), in which the scores never increase, and in which the
  entries of equal score stand in their catalog order.
\<close>

theorem recommend_speakers_rank:
  assumes "\<forall>m\<in>set (map snd (score_all create query speakers)). num_of (score m) \<noteq> None"
  shows "\<exists>ms. snd (recommend_speakers create query speakers thr) = Inr ms \<and>
           mset ms = mset (filter (\<lambda>m. fl_ge (score_key m) thr)
                                  (map snd (score_all create query speakers))) \<and>
           sorted_wrt (\<lambda>a b. fl_ge (score_key a) (score_key b)) ms \<and>
           (\<forall>k. filter (\<lambda>m. score_key m = k) ms =
                filter (\<lambda>m. score_key m = k)
                  (filter (\<lambda>m. fl_ge (score_key m) thr)
                          (map snd (score_all create query speakers))))"
proof -
  let ?scored = "map snd (score_all create query speakers)"
  let ?kept = "filter (\<lambda>m. fl_ge (score_key m) thr) ?scored"
  have r: "snd (recommend_speakers create query speakers thr) = Inr (sort_desc score_key ?kept)"
    using assms by (simp add: snd_recommend_speakers rank_matches_Inr)
  have "\<forall>m\<in>set ?kept. score_key m \<noteq> NaN"
    by (auto dest: fl_ge_not_NaN)
  then have s: "sorted_wrt (\<lambda>a b. fl_ge (score_key a) (score_key b)) (sort_desc score_key ?kept)"
    by (rule sorted_sort_desc)
  show ?thesis
    using r s by (simp add: mset_sort_desc sort_desc_stable)
qed

theorem recommend_speakers_rank_witness:
  "snd (recommend_speakers demo_create demo_query demo_catalog (Finite 0)) =
     Inr [scored_A, scored_C, scored_B] \<and>
   snd (recommend_speakers demo_create demo_query demo_catalog (Finite 6)) =
     Inr [scored_A, scored_C]"
proof -
  have n: "\<forall>m\<in>set (map snd (score_all demo_create demo_query demo_catalog)).
      num_of (score m) \<noteq> None"
    by (simp add: demo_scored scored_A_def scored_B_def scored_C_def)
  have r0: "snd (recommend_speakers demo_create demo_query demo_catalog (Finite 0)) =
      Inr [scored_A, scored_C, scored_B]"
    by (simp add: snd_recommend_speakers demo_scored demo_rank_0)
  have r6: "snd (recommend_speakers demo_create demo_query demo_catalog (Finite 6)) =
      Inr [scored_A, scored_C]"
    by (simp add: snd_recommend_speakers demo_scored demo_rank_6)
  from recommend_speakers_rank [OF n, of "Finite 0"] r0
  have "sorted_wrt (\<lambda>a b. fl_ge (score_key a) (score_key b)) [scored_A, scored_C, scored_B]"
    by auto
  with r0 r6 show ?thesis by simp
qed

section \<open>Monotonicity in the threshold\<close>

text \<open>
  Claim C4. For one batch of scored speakers and thresholds \<open>t1 < t2\<close>: when the filter
  at \<open>t2\<close> returns, the filter at \<open>t1\<close> returns too, and every entry that passes at
  \<open>t2\<close> passes at \<open>t1\<close>; the same holds for the ranked result.
\<close>

theorem threshold_monotone:
  assumes "fl_lt t1 t2"
  shows "(\<forall>ms2. filter_threshold scored t2 = Inr ms2 \<longrightarrow>
            (\<exists>ms1. filter_threshold scored t1 = Inr ms1 \<and> set ms2 \<subseteq> set ms1)) \<and>
         (\<forall>ms2. rank_matches scored t2 = Inr ms2 \<longrightarrow>
            (\<exists>ms1. rank_matches scored t1 = Inr ms1 \<and> set ms2 \<subseteq> set ms1))"
proof -
  have sub: "set (filter (\<lambda>s. fl_ge (score_key s) t2) scored)
      \<subseteq> set (filter (\<lambda>s. fl_ge (score_key s) t1) scored)"
    using assms by (auto intro: fl_lt_ge_trans)
  show ?thesis
    using sub by (simp add: filter_threshold_Inr_iff rank_matches_Inr set_sort_desc)
qed

theorem threshold_monotone_witness:
  "fl_lt (Finite 0) (Finite 6) \<and>
   rank_matches [scored_A, scored_B, scored_C] (Finite 6) = Inr [scored_A, scored_C] \<and>
   rank_matches [scored_A, scored_B, scored_C] (Finite 0) = Inr [scored_A, scored_C, scored_B] \<and>
   set [scored_A, scored_C] \<subseteq> set [scored_A, scored_C, scored_B]"
proof -
  have lt: "fl_lt (Finite 0) (Finite 6)" by simp
  from threshold_monotone [OF lt, of "[scored_A, scored_B, scored_C]"] demo_rank_6 demo_rank_0
  have "set [scored_A, scored_C] \<subseteq> set [scored_A, scored_C, scored_B]"
    by auto
  with lt demo_rank_6 demo_rank_0 show ?thesis by simp
qed

section \<open>Defaults for missing keys\<close>

text \<open>
  Claim C5. When the reply parses to a JSON object, \<open>score_speaker\<close> returns the dict of
  the success branch, with \<open>score\<close> and \<open>reasoning\<close> read from the object: an object
  without the key \<open>score\<close> gives score 0, one without the key \<open>reasoning\<close> gives the
  empty reasoning, and neither is turned into the error dict.
\<close>

theorem score_speaker_missing_keys:
  assumes "create (build_prompt query speaker) = Inr (Some content)"
    and "json_loads (strip content) = Inr (JObj d)"
  shows "snd (score_speaker create query speaker) =
           \<lparr>name = speaker ''name'', title = speaker ''title'',
            organization = speaker ''organization'', bio = speaker ''bio'',
            score = dict_get d ''score'' (JInt 0),
            reasoning = dict_get d ''reasoning'' (JStr '''')\<rparr> \<and>
         (''score'' \<notin> fst ` set d \<longrightarrow> score (snd (score_speaker create query speaker)) = JInt 0) \<and>
         (''reasoning'' \<notin> fst ` set d \<longrightarrow>
            reasoning (snd (score_speaker create query speaker)) = JStr '''')"
proof -
  have "try_score create query speaker =
      Inr \<lparr>name = speaker ''name'', title = speaker ''title'',
           organization = speaker ''organization'', bio = speaker ''bio'',
           score = dict_get d ''score'' (JInt 0),
           reasoning = dict_get d ''reasoning'' (JStr '''')\<rparr>"
    using assms by (simp add: try_score_def generate_text_def)
  then have res: "snd (score_speaker create query speaker) =
      \<lparr>name = speaker ''name'', title = speaker ''title'',
       organization = speaker ''organization'', bio = speaker ''bio'',
       score = dict_get d ''score'' (JInt 0),
       reasoning = dict_get d ''reasoning'' (JStr '''')\<rparr>"
    by (simp add: score_speaker_def)
  have "''score'' \<notin> fst ` set d \<Longrightarrow> dict_get d ''score'' (JInt 0) = JInt 0"
    by (simp add: dict_get_def map_of_eq_None_iff [THEN iffD2])
  moreover have "''reasoning'' \<notin> fst ` set d \<Longrightarrow> dict_get d ''reasoning'' (JStr '''') = JStr ''''"
    by (simp add: dict_get_def map_of_eq_None_iff [THEN iffD2])
  ultimately show ?thesis using res by simp
qed

theorem score_speaker_missing_keys_witness:
  "json_loads (strip ''{}'') = Inr (JObj []) \<and>
   snd (score_speaker (\<lambda>p. Inr (Some ''{}'')) ''We sell counter-drone radar''
          [''name'' \<mapsto> ''Ann Lee'']) =
     \<lparr>name = Some ''Ann Lee'', title = None, organization = None, bio = None,
      score = JInt 0, reasoning = JStr ''''\<rparr>"
proof -
  have parse: "json_loads (strip ''{}'') = Inr (JObj [])"
    by code_simp
  have call: "(\<lambda>p. Inr (Some ''{}'')) (build_prompt ''We sell counter-drone radar''
       [''name'' \<mapsto> ''Ann Lee'']) = (Inr (Some ''{}'') :: string + string option)"
    by simp
  show ?thesis
    using parse score_speaker_missing_keys [OF call parse]
    by (simp add: dict_get_def)
qed

section \<open>A reply inside a fenced block\<close>

text \<open>
  Claim C6. The reply of the scenario for A, written inside a block fenced and tagged
  \<open>json\<close>: \<open>score_speaker\<close> passes the reply to \<open>json.loads\<close> as it is, which raises,
  and the speaker gets score 0 and the decoder's message as reasoning. The extraction of
  \<open>AnthropicClient.extract_structured_data\<close> recovers the object from the same text.
\<close>

theorem score_speaker_fenced_reply:
  "snd (score_speaker (demo_create_fenced 0) demo_query (demo_catalog ! 0)) =
     \<lparr>name = Some ''A'', title = Some ''Director'', organization = Some ''Org A'',
      bio = Some ''Buys radar'', score = JInt 0,
      reasoning = JStr ''Error: Expecting value: line 1 column 1 (char 0)''\<rparr> \<and>
   extract_structured_json fenced_reply =
     Inr (JObj [(''score'', JInt 9), (''reasoning'', JStr ''direct fit'')])"
proof -
  have a: "(demo_catalog ! 0) ''name'' = Some ''A'' \<and> (demo_catalog ! 0) ''title'' = Some ''Director''
      \<and> (demo_catalog ! 0) ''organization'' = Some ''Org A''
      \<and> (demo_catalog ! 0) ''bio'' = Some ''Buys radar''"
    by (simp add: demo_catalog_def)
  show ?thesis
    using a fenced_reply_loads fenced_reply_extract
    by (simp add: score_speaker_def try_score_def generate_text_def demo_create_fenced_def)
qed

section \<open>Validation of the request\<close>

text \<open>
  Claim C7 says that \<open>match_speakers\<close> rejects an empty query and a threshold outside
  0..10 with a client error, before any scoring. Two requests show that it does not.
  With the catalog of the scenario and the threshold 11, all three prompts are sent and
  the request is answered, with no match. With no catalog loaded and an empty query, the
  error is the server error 500 of the missing catalog, not a client error.
\<close>

theorem match_speakers_validation_counterexample:
  "fl_lt (Finite 10) (Finite 11) \<and>
   match_speakers (Some ''sk-test'') MatchResponse demo_catalog demo_create
       (demo_request (Finite 11)) =
     (map (build_prompt demo_query) demo_catalog,
      Inr \<lparr>matches = [], total_speakers = 3, matches_found = 0\<rparr>) \<and>
   match_speakers (Some ''sk-test'') MatchResponse [] demo_create
       \<lparr>user_bio = [], threshold = Finite 6\<rparr> =
     ([], Inl (HTTPException 500 ''Speaker data not loaded''))"
proof -
  have r: "MatchResponse [] 3 0 = Inr \<lparr>matches = [], total_speakers = 3, matches_found = 0\<rparr>"
    by (simp add: MatchResponse_def map_filter_simps)
  have ne: "demo_catalog \<noteq> []" using demo_catalog_nonempty by simp
  have q1: "user_bio (demo_request (Finite 11)) \<noteq> []"
    and q2: "\<not> length (strip (user_bio (demo_request (Finite 11)))) < 10"
    by (simp_all add: demo_request_simps demo_query_ok)
  have "match_speakers (Some ''sk-test'') MatchResponse demo_catalog demo_create
       (demo_request (Finite 11)) =
     (map (build_prompt demo_query) demo_catalog,
      Inr \<lparr>matches = [], total_speakers = 3, matches_found = 0\<rparr>)"
    using demo_catalog_nonempty r
    by (simp add: match_speakers_scoring [OF ne q1 q2 demo_key] scored_speakers_def
        demo_scored demo_rank_11 demo_request_simps)
  then show ?thesis by (simp add: match_speakers_empty_catalog)
qed

text \<open>
  Claim C7 as amended. With the catalog loaded, a request whose query is empty, or has
  fewer than 10 characters once surrounding white space is stripped, fails with the
  client error 400 and no prompt is sent. That is the only client error of
  \<open>match_speakers\<close>: whenever it answers 400, the catalog is loaded, the query is that
  short and no prompt was sent. The threshold plays no part in it.
\<close>

theorem match_speakers_validation:
  "(speakers_data \<noteq> [] \<and>
    (user_bio request = [] \<or> length (strip (user_bio request)) < 10) \<longrightarrow>
      match_speakers env_key response speakers_data create request =
        ([], Inl (HTTPException 400 ''User bio must be at least 10 characters''))) \<and>
   (snd (match_speakers env_key response speakers_data create request) =
        Inl (HTTPException 400 detail) \<longrightarrow>
      speakers_data \<noteq> [] \<and>
      (user_bio request = [] \<or> length (strip (user_bio request)) < 10) \<and>
      fst (match_speakers env_key response speakers_data create request) = [])"
  by (auto simp: match_speakers_def split_def Let_def split: sum.splits if_splits)

theorem match_speakers_validation_witness:
  "match_speakers (Some ''sk-test'') MatchResponse demo_catalog demo_create
       \<lparr>user_bio = ''   drones   '', threshold = Finite 6\<rparr> =
     ([], Inl (HTTPException 400 ''User bio must be at least 10 characters'')) \<and>
   length (strip ''   drones   '') < 10 \<and>
   fst (match_speakers (Some ''sk-test'') MatchResponse demo_catalog demo_create
       \<lparr>user_bio = ''   drones   '', threshold = Finite 6\<rparr>) = []"
proof -
  have s: "length (strip ''   drones   '') < 10"
    by code_simp
  then have short:
    "length (strip (user_bio \<lparr>user_bio = ''   drones   '', threshold = Finite 6\<rparr>)) < 10"
    by simp
  note T = match_speakers_validation [of demo_catalog
      "\<lparr>user_bio = ''   drones   '', threshold = Finite 6\<rparr>" "Some ''sk-test''" MatchResponse
      demo_create "''User bio must be at least 10 characters''"]
  from T demo_catalog_nonempty short
  have r: "match_speakers (Some ''sk-test'') MatchResponse demo_catalog demo_create
       \<lparr>user_bio = ''   drones   '', threshold = Finite 6\<rparr> =
     ([], Inl (HTTPException 400 ''User bio must be at least 10 characters''))"
    by blast
  then have "snd (match_speakers (Some ''sk-test'') MatchResponse demo_catalog demo_create
       \<lparr>user_bio = ''   drones   '', threshold = Finite 6\<rparr>) =
     Inl (HTTPException 400 ''User bio must be at least 10 characters'')"
    by simp
  with T have "fst (match_speakers (Some ''sk-test'') MatchResponse demo_catalog demo_create
       \<lparr>user_bio = ''   drones   '', threshold = Finite 6\<rparr>) = []"
    by blast
  with r s show ?thesis by (intro conjI)
qed

section \<open>A request that fails after scoring\<close>

text \<open>
  Claim C8. With the catalog of the scenario loaded, let the reply for B hold the text
  \<open>high\<close> as its score. \<open>score_speaker\<close> returns that dict as a success; then the
  comparison of the filter raises \<open>TypeError\<close>, after all three prompts were sent, and
  the whole request fails with the server error 500.
\<close>

theorem match_speakers_text_score:
  "match_speakers (Some ''sk-test'') MatchResponse demo_catalog demo_create_text_score
       (demo_request (Finite 6)) =
     (map (build_prompt demo_query) demo_catalog,
      Inl (HTTPException 500
             (''Error matching speakers: '' @ quoted ''>=''
              @ '' not supported between instances of '' @ quoted ''str''
              @ '' and '' @ quoted ''float'')))"
proof -
  have ne: "demo_catalog \<noteq> []" using demo_catalog_nonempty by simp
  have q1: "user_bio (demo_request (Finite 6)) \<noteq> []"
    and q2: "\<not> length (strip (user_bio (demo_request (Finite 6)))) < 10"
    by (simp_all add: demo_request_simps demo_query_ok)
  show ?thesis
    by (simp add: match_speakers_scoring [OF ne q1 q2 demo_key] demo_scored_text
        demo_rank_text demo_request_simps)
qed

section \<open>Independence from the order of completion\<close>

text \<open>
  Claim C9. First: whatever the order in which the scoring tasks complete (any
  arrangement of the task numbers), \<open>recommend_speakers\<close> returns the same result, the
  one computed from the dicts in catalog order; two runs that differ in the order of
  completion only return identical lists. Second: let two runs differ in the provider's
  behaviour for speaker \<open>k\<close> only, the call for \<open>k\<close> failing in the second. When the first
  run returns \<open>ms\<close>, the second returns some \<open>ms'\<close>, and both are the ranking
  \<open>others\<close> of the other speakers' dicts with at most the dict of \<open>k\<close> put in somewhere:
  the others keep their places relative to each other.
\<close>

theorem completion_order_independent:
  "(mset c1 = mset [0..<length speakers] \<and> mset c2 = mset [0..<length speakers] \<longrightarrow>
      recommend_speakers_in c1 create query speakers thr =
        recommend_speakers_in c2 create query speakers thr \<and>
      recommend_speakers_in c1 create query speakers thr =
        Some (snd (recommend_speakers create query speakers thr))) \<and>
   (k < length speakers \<and> (\<forall>i. i \<noteq> k \<longrightarrow> create' i = create i) \<and>
    create' k (build_prompt query (speakers ! k)) = Inl e \<and>
    snd (recommend_speakers create query speakers thr) = Inr ms \<longrightarrow>
      (\<exists>ms' others.
         snd (recommend_speakers create' query speakers thr) = Inr ms' \<and>
         rank_matches (take k (scored_speakers create query speakers) @
                       drop (Suc k) (scored_speakers create query speakers)) thr = Inr others \<and>
         (\<exists>ps qs. others = ps @ qs \<and>
            (ms = ps @ qs \<or> ms = ps @ scored_speakers create query speakers ! k # qs)) \<and>
         (\<exists>ps qs. others = ps @ qs \<and>
            (ms' = ps @ qs \<or> ms' = ps @ scored_speakers create' query speakers ! k # qs))))"
proof (intro conjI impI)
  assume c: "mset c1 = mset [0..<length speakers] \<and> mset c2 = mset [0..<length speakers]"
  then show "recommend_speakers_in c1 create query speakers thr =
      recommend_speakers_in c2 create query speakers thr"
    by (simp add: recommend_speakers_in_complete)
  from c show "recommend_speakers_in c1 create query speakers thr =
      Some (snd (recommend_speakers create query speakers thr))"
    by (simp add: recommend_speakers_in_complete)
next
  let ?S = "scored_speakers create query speakers"
  let ?S' = "scored_speakers create' query speakers"
  assume a: "k < length speakers \<and> (\<forall>i. i \<noteq> k \<longrightarrow> create' i = create i) \<and>
    create' k (build_prompt query (speakers ! k)) = Inl e \<and>
    snd (recommend_speakers create query speakers thr) = Inr ms"
  then have k: "k < length speakers" and same: "\<And>i. i \<noteq> k \<Longrightarrow> create' i = create i"
    and fail: "create' k (build_prompt query (speakers ! k)) = Inl e"
    and r: "rank_matches ?S thr = Inr ms"
    by (simp_all add: snd_recommend_speakers scored_speakers_def)
  have nth: "?S' ! i = ?S ! i" if "i < length speakers" "i \<noteq> k" for i
    using that same by (simp add: scored_speakers_nth)
  have tk: "take k ?S' = take k ?S"
    by (rule nth_equalityI) (use k nth in \<open>simp_all add: length_scored_speakers\<close>)
  have dr: "drop (Suc k) ?S' = drop (Suc k) ?S"
    by (rule nth_equalityI) (use k nth in \<open>simp_all add: length_scored_speakers\<close>)
  have S: "?S = take k ?S @ ?S ! k # drop (Suc k) ?S"
    using k by (simp add: id_take_nth_drop length_scored_speakers)
  have S': "?S' = take k ?S @ ?S' ! k # drop (Suc k) ?S"
    using k id_take_nth_drop [of k ?S'] tk dr by (simp add: length_scored_speakers)
  from r S have r1: "rank_matches (take k ?S @ ?S ! k # drop (Suc k) ?S) thr = Inr ms" by simp
  from rank_matches_one_more [OF r1] obtain ps qs
    where others: "rank_matches (take k ?S @ drop (Suc k) ?S) thr = Inr (ps @ qs)"
      and ms: "ms = ps @ qs \<or> ms = ps @ ?S ! k # qs" by blast
  from others have num: "\<forall>s\<in>set (take k ?S @ drop (Suc k) ?S). num_of (score s) \<noteq> None"
    by (simp add: rank_matches_Inr)
  have "score (?S' ! k) = JInt 0"
    using k fail by (simp add: scored_speakers_nth score_speaker_provider_fails)
  then have "num_of (score (?S' ! k)) \<noteq> None" by simp
  with num have "\<forall>s\<in>set (take k ?S @ ?S' ! k # drop (Suc k) ?S). num_of (score s) \<noteq> None"
    by auto
  then obtain ms' where r': "rank_matches (take k ?S @ ?S' ! k # drop (Suc k) ?S) thr = Inr ms'"
    by (simp add: rank_matches_Inr)
  from rank_matches_one_more [OF r'] others obtain ps' qs'
    where o': "ps @ qs = ps' @ qs'" and ms': "ms' = ps' @ qs' \<or> ms' = ps' @ ?S' ! k # qs'"
    by auto
  from r' S' have "snd (recommend_speakers create' query speakers thr) = Inr ms'"
    by (simp add: snd_recommend_speakers scored_speakers_def)
  with others ms o' ms' show "\<exists>ms' others.
         snd (recommend_speakers create' query speakers thr) = Inr ms' \<and>
         rank_matches (take k ?S @ drop (Suc k) ?S) thr = Inr others \<and>
         (\<exists>ps qs. others = ps @ qs \<and> (ms = ps @ qs \<or> ms = ps @ ?S ! k # qs)) \<and>
         (\<exists>ps qs. others = ps @ qs \<and> (ms' = ps @ qs \<or> ms' = ps @ ?S' ! k # qs))"
    by blast
qed

theorem completion_order_independent_witness:
  "recommend_speakers_in [2, 0, 1] demo_create demo_query demo_catalog (Finite 0) =
     Some (Inr [scored_A, scored_C, scored_B]) \<and>
   recommend_speakers_in [0, 1, 2] demo_create demo_query demo_catalog (Finite 0) =
     Some (Inr [scored_A, scored_C, scored_B]) \<and>
   snd (recommend_speakers demo_create_A_fails demo_query demo_catalog (Finite 0)) =
     Inr [scored_C, failed_A, scored_B] \<and>
   (\<exists>ps qs. [scored_C, scored_B] = ps @ qs \<and> [scored_A, scored_C, scored_B] = ps @ scored_A # qs) \<and>
   (\<exists>ps qs. [scored_C, scored_B] = ps @ qs \<and> [scored_C, failed_A, scored_B] = ps @ failed_A # qs)"
proof -
  have len: "length demo_catalog = 3" by (simp add: demo_catalog_def)
  have c1: "mset [2, 0, 1] = mset [0..<length demo_catalog]"
    by (simp add: len upt_rec)
  have c2: "mset [0, 1, 2] = mset [0..<length demo_catalog]"
    by (simp add: len upt_rec)
  have r: "snd (recommend_speakers demo_create demo_query demo_catalog (Finite 0)) =
      Inr [scored_A, scored_C, scored_B]"
    by (simp add: snd_recommend_speakers demo_scored demo_rank_0)
  have r': "snd (recommend_speakers demo_create_A_fails demo_query demo_catalog (Finite 0)) =
      Inr [scored_C, failed_A, scored_B]"
    using demo_scored_A_fails demo_rank_A_fails
    by (simp add: snd_recommend_speakers scored_speakers_def)
  have same: "\<forall>i. i \<noteq> 0 \<longrightarrow> demo_create_A_fails i = demo_create i"
    by (simp add: demo_create_A_fails_def)
  have fail: "demo_create_A_fails 0 (build_prompt demo_query (demo_catalog ! 0)) =
      Inl ''Rate limit reached.''"
    by (simp add: demo_create_A_fails_def)
  have k: "0 < length demo_catalog" by (simp add: len)
  have s1: "[scored_C, scored_B] = [] @ [scored_C, scored_B] \<and>
      [scored_A, scored_C, scored_B] = [] @ scored_A # [scored_C, scored_B]"
    by simp
  have s2: "[scored_C, scored_B] = [scored_C] @ [scored_B] \<and>
      [scored_C, failed_A, scored_B] = [scored_C] @ failed_A # [scored_B]"
    by simp
  note T = completion_order_independent [of "[2, 0, 1]" demo_catalog "[0, 1, 2]" demo_create
      demo_query "Finite 0" 0 demo_create_A_fails "''Rate limit reached.''"
      "[scored_A, scored_C, scored_B]"]
  from T c1 c2
  have e1: "recommend_speakers_in [2, 0, 1] demo_create demo_query demo_catalog (Finite 0) =
      Some (snd (recommend_speakers demo_create demo_query demo_catalog (Finite 0)))"
    and e2: "recommend_speakers_in [2, 0, 1] demo_create demo_query demo_catalog (Finite 0) =
      recommend_speakers_in [0, 1, 2] demo_create demo_query demo_catalog (Finite 0)"
    by blast+
  from e1 r have f1: "recommend_speakers_in [2, 0, 1] demo_create demo_query demo_catalog (Finite 0) =
      Some (Inr [scored_A, scored_C, scored_B])"
    by (simp only:)
  from e2 f1 have f2: "recommend_speakers_in [0, 1, 2] demo_create demo_query demo_catalog (Finite 0) =
      Some (Inr [scored_A, scored_C, scored_B])"
    by (simp only:)
  from s1 have x1: "\<exists>ps qs. [scored_C, scored_B] = ps @ qs \<and>
      [scored_A, scored_C, scored_B] = ps @ scored_A # qs"
    by blast
  from s2 have x2: "\<exists>ps qs. [scored_C, scored_B] = ps @ qs \<and>
      [scored_C, failed_A, scored_B] = ps @ failed_A # qs"
    by blast
  from T k same fail r obtain ms'
    where m: "snd (recommend_speakers demo_create_A_fails demo_query demo_catalog (Finite 0)) =
      Inr ms'"
    by blast
  with r' have "ms' = [scored_C, failed_A, scored_B]" by simp
  with m have f3: "snd (recommend_speakers demo_create_A_fails demo_query demo_catalog (Finite 0)) =
      Inr [scored_C, failed_A, scored_B]"
    by (simp only:)
  from f1 f2 f3 x1 x2 show ?thesis by (intro conjI)
qed

section \<open>The speaker's fields\<close>

text \<open>
  Claim C10. The dict \<open>score_speaker\<close> returns carries the speaker's \<open>name\<close>, \<open>title\<close>,
  \<open>organization\<close> and whole \<open>bio\<close> (the cut to 800 characters is in the prompt only),
  in the success branch and in the error branch alike; and every match that
  \<open>recommend_speakers\<close> returns carries those four fields of some speaker of the
  catalog. The catalog itself is only read: \<open>score_all\<close> maps over it, the filter builds
  a new list, and it is that new list which is sorted.
\<close>

theorem speaker_fields_preserved:
  "name (snd (score_speaker create query speaker)) = speaker ''name'' \<and>
   title (snd (score_speaker create query speaker)) = speaker ''title'' \<and>
   organization (snd (score_speaker create query speaker)) = speaker ''organization'' \<and>
   bio (snd (score_speaker create query speaker)) = speaker ''bio'' \<and>
   (\<forall>ms. snd (recommend_speakers creates query speakers thr) = Inr ms \<longrightarrow>
      (\<forall>m\<in>set ms. \<exists>i<length speakers.
         name m = (speakers ! i) ''name'' \<and> title m = (speakers ! i) ''title'' \<and>
         organization m = (speakers ! i) ''organization'' \<and> bio m = (speakers ! i) ''bio''))"
proof -
  have "\<exists>i<length speakers.
         name m = (speakers ! i) ''name'' \<and> title m = (speakers ! i) ''title'' \<and>
         organization m = (speakers ! i) ''organization'' \<and> bio m = (speakers ! i) ''bio''"
    if r: "snd (recommend_speakers creates query speakers thr) = Inr ms" and m: "m \<in> set ms"
    for ms m
  proof -
    from r have "set ms \<subseteq> set (map snd (score_all creates query speakers))"
      using rank_matches_subset [of "map snd (score_all creates query speakers)" thr ms]
      by (simp add: snd_recommend_speakers)
    with m have "m \<in> set (map snd (score_all creates query speakers))" by blast
    then obtain i where i: "i < length (score_all creates query speakers)"
      and mi: "m = snd (score_all creates query speakers ! i)"
      unfolding in_set_conv_nth by auto
    from i have il: "i < length speakers" by (simp add: length_score_all)
    then have "m = snd (score_speaker (creates i) query (speakers ! i))"
      using mi by (simp add: score_all_nth)
    with il score_speaker_fields [of "creates i" query "speakers ! i"] show ?thesis
      by auto
  qed
  with score_speaker_fields [of create query speaker] show ?thesis by blast
qed

theorem speaker_fields_preserved_witness:
  "snd (recommend_speakers demo_create demo_query demo_catalog (Finite 6)) =
     Inr [scored_A, scored_C] \<and>
   bio (snd (score_speaker (demo_create 1) demo_query (demo_catalog ! 1))) =
     Some ''Writes reports'' \<and>
   (\<exists>i<length demo_catalog.
      name scored_C = (demo_catalog ! i) ''name'' \<and>
      title scored_C = (demo_catalog ! i) ''title'' \<and>
      organization scored_C = (demo_catalog ! i) ''organization'' \<and>
      bio scored_C = (demo_catalog ! i) ''bio'')"
proof -
  have r: "snd (recommend_speakers demo_create demo_query demo_catalog (Finite 6)) =
      Inr [scored_A, scored_C]"
    by (simp add: snd_recommend_speakers demo_scored demo_rank_6)
  have b: "(demo_catalog ! 1) ''bio'' = Some ''Writes reports''"
    by (simp add: demo_catalog_def)
  show ?thesis
    using r b speaker_fields_preserved [of "demo_create 1" demo_query "demo_catalog ! 1"
        demo_create demo_catalog "Finite 6"]
    by simp
qed

end
